theory Spec2Isabelle
  imports Main
begin

section \<open>Data model of \<^verbatim>\<open>cmd/pilot/main.go\<close>\<close>

text \<open>
  The file under verification is the command-line entry point of Istio Pilot: a root
  command whose \<^verbatim>\<open>PersistentPreRunE\<close> fills three package-level variables
  (\<^verbatim>\<open>client\<close>, \<^verbatim>\<open>vmsClient\<close>, \<^verbatim>\<open>mesh\<close>), and the commands
  \<^verbatim>\<open>discovery\<close>, \<^verbatim>\<open>proxy sidecar\<close>, \<^verbatim>\<open>proxy ingress\<close>,
  \<^verbatim>\<open>proxy egress\<close> and \<^verbatim>\<open>version\<close>.

  Every command is embedded as a function from the package-level state to an outcome, the
  list of effects it performed in program order, and the final package-level state.
  Functions of other packages are not part of the file: what they return is read from an
  environment record, so that every theorem holds for whatever they return.
\<close>

subsection \<open>Flags\<close>

type_synonym Adapter = string

definition KubernetesAdapter :: Adapter where
  "KubernetesAdapter = ''Kubernetes''"

definition VMsAdapter :: Adapter where
  "VMsAdapter = ''VMs''"

record VMsArgs =
  config :: string
  serverURL :: string
  authToken :: string

text \<open>The fields of \<^verbatim>\<open>kube.ControllerOptions\<close> and
  \<^verbatim>\<open>envoy.DiscoveryServiceOptions\<close> that the file binds to flags.\<close>

record ControllerOptions =
  Namespace :: string
  ResyncPeriod :: int
  DomainSuffix :: string

record DiscoveryServiceOptions =
  Port :: int
  EnableProfiling :: bool
  EnableCaching :: bool

record args =
  kubeconfig :: string
  meshConfig :: string
  ipAddress :: string
  podName :: string
  passthrough :: "int list"
  controllerOptions :: ControllerOptions
  discoveryOptions :: DiscoveryServiceOptions
  adapter :: Adapter
  vmsArgs :: VMsArgs

subsection \<open>Values handed around by the commands\<close>

text \<open>Go's \<^verbatim>\<open>error\<close>: \<open>None\<close> is \<^verbatim>\<open>nil\<close>. \<open>Prefix\<close> is
  \<^verbatim>\<open>multierror.Prefix(err, prefix)\<close>, \<open>Errorf\<close> is
  \<^verbatim>\<open>fmt.Errorf(format, err)\<close>.\<close>

datatype error = Failure string | Prefix error string | Errorf string error

datatype kube_Interface = KubeInterface nat

datatype vms_Client = VmsClient nat

datatype tpr_Client = TprClient nat

datatype IngressControllerMode =
  ProxyMeshConfig_OFF | ProxyMeshConfig_DEFAULT | ProxyMeshConfig_STRICT

record ProxyMeshConfig =
  IngressControllerMode :: IngressControllerMode
  otherFields :: nat

datatype ProtoSchema = RouteRuleDescriptor | DestinationPolicyDescriptor

type_synonym ConfigDescriptor = "ProtoSchema list"

text \<open>Objects the file constructs are kept symbolic: a value records the constructor and its
  arguments. A pointer or interface that is \<^verbatim>\<open>nil\<close> is \<open>None\<close>.\<close>

datatype vms_Controller =
  VmsController "vms_Client option" "ProxyMeshConfig option"

datatype ServiceDiscovery =
  KubeController "kube_Interface option" "ProxyMeshConfig option" ControllerOptions
  | VmsServiceDiscovery vms_Controller

datatype ConfigStoreCache =
  TprController tpr_Client int
  | IngressController "kube_Interface option" "ProxyMeshConfig option" ControllerOptions
  | AggregateCache "ConfigStoreCache list"
  | VmsConfigStore vms_Controller

datatype syncer_client = KubeArg "kube_Interface option" | VmsArg "vms_Client option"

datatype StatusSyncer =
  StatusSyncer "ProxyMeshConfig option" syncer_client ControllerOptions

datatype IstioConfigStore = MakeIstioStore "ConfigStoreCache option"

datatype vms_Config = VmsConfig nat

datatype Identity = Identity nat

datatype RegistrationAgent = RegistrationAgent "vms_Client option" Identity

record Context =
  Discovery :: "ServiceDiscovery option"
  Accounts :: "ServiceDiscovery option"
  Config :: IstioConfigStore
  MeshConfig :: "ProxyMeshConfig option"
  IPAddress :: string
  UID :: string
  Registraion :: "RegistrationAgent option"
  PassthroughPorts :: "int list"

datatype DiscoveryService =
  DiscoveryService "ServiceDiscovery option" "ConfigStoreCache option" Context
    DiscoveryServiceOptions

datatype SecretRegistry = MakeSecretRegistry "kube_Interface option"

datatype Watcher =
  Watcher "ServiceDiscovery option" "ConfigStoreCache option" Context
  | IngressWatcher "ProxyMeshConfig option" SecretRegistry
  | EgressWatcher "ProxyMeshConfig option"

subsection \<open>Package-level variables\<close>

record globals =
  flags :: args
  client :: "kube_Interface option"
  vmsClient :: "vms_Client option"
  mesh :: "ProxyMeshConfig option"

subsection \<open>What the other packages return\<close>

text \<open>A constructor of another package that returns \<^verbatim>\<open>(value, error)\<close> is
  \<open>error + value\<close>: either the error is non-nil (\<open>Inl\<close>; the value it returns with it
  is \<^verbatim>\<open>nil\<close>) or the value is there. Where the value is symbolic, only the error is
  read from the environment.\<close>

record env =
  os_Getenv :: "string \<Rightarrow> string"
  kube_CreateInterface :: "string \<Rightarrow> error + kube_Interface"
  cmd_GetMeshConfig :: "kube_Interface option \<Rightarrow> string \<Rightarrow> string \<Rightarrow> error + ProxyMeshConfig"
  vmsclient_New :: "string \<Rightarrow> string \<Rightarrow> error + vms_Client"
  proxy_DefaultMeshConfig :: ProxyMeshConfig
  tpr_NewClient :: "string \<Rightarrow> ConfigDescriptor \<Rightarrow> string \<Rightarrow> error + tpr_Client"
  tpr_RegisterResources :: "tpr_Client \<Rightarrow> error option"
  aggregate_MakeCache :: "ConfigStoreCache list \<Rightarrow> error option"
  envoy_NewDiscoveryService ::
    "ServiceDiscovery option \<Rightarrow> ConfigStoreCache option \<Rightarrow> Context \<Rightarrow> DiscoveryServiceOptions
      \<Rightarrow> error option"
  envoy_NewWatcher ::
    "ServiceDiscovery option \<Rightarrow> ConfigStoreCache option \<Rightarrow> Context \<Rightarrow> error option"
  envoy_NewIngressWatcher :: "ProxyMeshConfig option \<Rightarrow> SecretRegistry \<Rightarrow> error option"
  envoy_NewEgressWatcher :: "ProxyMeshConfig option \<Rightarrow> error option"
  vmsconfig_loadFromFile :: "string \<Rightarrow> error + vms_Config"
  identity_New :: "vms_Config \<Rightarrow> error + Identity"
  register_NewRegistrationAgent :: "vms_Client option \<Rightarrow> Identity \<Rightarrow> error option"

subsection \<open>Effects\<close>

datatype chan = Chan nat

text \<open>The call of a \<^verbatim>\<open>go\<close> statement. \<^verbatim>\<open>discovery.Run()\<close> takes no
  argument; every other \<^verbatim>\<open>Run\<close> takes the stop channel.\<close>

datatype goroutine =
  ServiceController_Run ServiceDiscovery chan
  | ConfigController_Run ConfigStoreCache chan
  | Discovery_Run DiscoveryService
  | IngressSyncer_Run StatusSyncer chan
  | Watcher_Run Watcher chan

datatype event =
  Call_tpr_NewClient string ConfigDescriptor string
  | Call_RegisterResources tpr_Client
  | Call_kube_NewController ServiceDiscovery
  | Call_tpr_NewController ConfigStoreCache
  | Call_ingress_NewController ConfigStoreCache
  | Call_aggregate_MakeCache "ConfigStoreCache list"
  | Call_ingress_NewStatusSyncer StatusSyncer
  | Call_vms_NewController vms_Controller
  | Call_envoy_NewDiscoveryService "ServiceDiscovery option" "ConfigStoreCache option" Context
      DiscoveryServiceOptions
  | Call_envoy_NewWatcher "ServiceDiscovery option" "ConfigStoreCache option" Context
  | Call_envoy_NewIngressWatcher "ProxyMeshConfig option" SecretRegistry
  | Call_envoy_NewEgressWatcher "ProxyMeshConfig option"
  | Call_loadFromFile string
  | Call_identity_New vms_Config
  | Call_NewRegistrationAgent "vms_Client option" Identity
  | MakeChan chan
  | Go goroutine
  | WaitSignal chan
  | Print_version

text \<open>A run-time panic: a field access through a nil pointer, or a method called on a nil
  interface value. The string names the expression.\<close>

datatype panic = NilPointerDereference string | NilInterfaceCall string

datatype outcome = Returned "error option" | Panicked panic

record run =
  outcome :: outcome
  effects :: "event list"
  final :: globals

definition ret :: "error option \<Rightarrow> event list \<Rightarrow> globals \<Rightarrow> run" where
  "ret err tr g = \<lparr>outcome = Returned err, effects = tr, final = g\<rparr>"

definition panics :: "panic \<Rightarrow> event list \<Rightarrow> globals \<Rightarrow> run" where
  "panics p tr g = \<lparr>outcome = Panicked p, effects = tr, final = g\<rparr>"

definition initial_globals :: "args \<Rightarrow> globals" where
  "initial_globals f = \<lparr>flags = f, client = None, vmsClient = None, mesh = None\<rparr>"

section \<open>The root command\<close>

text \<open>Lines 110 to 119: flags left empty are read from the environment of the process.\<close>

definition set_from_environment :: "env \<Rightarrow> globals \<Rightarrow> globals" where
  "set_from_environment e g3 =
    (let g4 = (if ipAddress (flags g3) = ''''
               then g3\<lparr>flags := (flags g3)\<lparr>ipAddress := os_Getenv e ''POD_IP''\<rparr>\<rparr>
               else g3);
         g5 = (if podName (flags g4) = ''''
               then g4\<lparr>flags := (flags g4)\<lparr>podName := os_Getenv e ''POD_NAME''\<rparr>\<rparr>
               else g4)
     in
     if Namespace (controllerOptions (flags g5)) = ''''
     then g5\<lparr>flags := (flags g5)\<lparr>controllerOptions :=
            (controllerOptions (flags g5))\<lparr>Namespace := os_Getenv e ''POD_NAMESPACE''\<rparr>\<rparr>\<rparr>
     else g5)"

text \<open>\<^verbatim>\<open>rootCmd.PersistentPreRunE\<close> (lines 92 to 141). The result parameter
  \<^verbatim>\<open>err\<close> is nil at the final \<^verbatim>\<open>return\<close>: every assignment of a non-nil
  value to it is followed by an explicit return.\<close>

definition PersistentPreRunE :: "env \<Rightarrow> globals \<Rightarrow> error option \<times> globals" where
  "PersistentPreRunE e g0 =
    (let g1 = (if adapter (flags g0) = ''''
               then g0\<lparr>flags := (flags g0)\<lparr>adapter := KubernetesAdapter\<rparr>\<rparr> else g0)
     in
     if adapter (flags g1) = KubernetesAdapter then
       (let g2 = (if kubeconfig (flags g1) = '''' \<and> os_Getenv e ''KUBECONFIG'' \<noteq> ''''
                  then g1\<lparr>flags := (flags g1)\<lparr>kubeconfig := os_Getenv e ''KUBECONFIG''\<rparr>\<rparr>
                  else g1)
        in
        case kube_CreateInterface e (kubeconfig (flags g2)) of
          Inl err \<Rightarrow>
            (Some (Prefix err ''failed to connect to Kubernetes API.''), g2\<lparr>client := None\<rparr>)
        | Inr c \<Rightarrow>
            (let g3 = set_from_environment e (g2\<lparr>client := Some c\<rparr>) in
             case cmd_GetMeshConfig e (client g3) (Namespace (controllerOptions (flags g3)))
                    (meshConfig (flags g3)) of
               Inl err \<Rightarrow>
                 (Some (Prefix err ''failed to retrieve mesh configuration.''),
                  g3\<lparr>mesh := None\<rparr>)
             | Inr m \<Rightarrow> (None, g3\<lparr>mesh := Some m\<rparr>)))
     else if adapter (flags g1) = VMsAdapter then
       (case vmsclient_New e (serverURL (vmsArgs (flags g1))) (authToken (vmsArgs (flags g1))) of
          Inl err \<Rightarrow> (Some (Prefix err ''failed to create VMs client.''), g1\<lparr>vmsClient := None\<rparr>)
        | Inr c \<Rightarrow> (None, g1\<lparr>vmsClient := Some c, mesh := Some (proxy_DefaultMeshConfig e)\<rparr>))
     else (None, g1))"

section \<open>The discovery command\<close>

text \<open>Lines 183 to 203 of \<^verbatim>\<open>discoveryCmd.RunE\<close>: what follows the adapter branch.
  The parameter \<open>ingressSyncer\<close> is the variable of line 150 as the branch left it; line 194
  binds the name again, to a syncer built with the Kubernetes \<^verbatim>\<open>client\<close>, and line 200
  starts that one. A \<^verbatim>\<open>go\<close> statement evaluates the method value in the calling
  goroutine, so \<^verbatim>\<open>go x.Run(stop)\<close> with a nil interface \<open>x\<close> panics there.
  \<^verbatim>\<open>cmd.WaitSignal(stop)\<close> blocks until the process is signalled; the outcome
  \<open>Returned\<close> after it is what \<^verbatim>\<open>RunE\<close> returns once it has.\<close>

definition discoveryCmd_rest ::
  "env \<Rightarrow> globals \<Rightarrow> event list \<Rightarrow> ServiceDiscovery option \<Rightarrow> ConfigStoreCache option
    \<Rightarrow> StatusSyncer option \<Rightarrow> run" where
  "discoveryCmd_rest e g tr serviceController configController ingressSyncer =
    (let context = \<lparr>Discovery = serviceController, Accounts = serviceController,
                     Config = MakeIstioStore configController, MeshConfig = mesh g,
                     IPAddress = '''', UID = '''', Registraion = None, PassthroughPorts = []\<rparr>;
         tr1 = tr @ [Call_envoy_NewDiscoveryService serviceController configController context
                       (discoveryOptions (flags g))]
     in
     case envoy_NewDiscoveryService e serviceController configController context
            (discoveryOptions (flags g)) of
       Some err \<Rightarrow> ret (Some (Errorf ''failed to create discovery service: %v'' err)) tr1 g
     | None \<Rightarrow>
         (let discovery = DiscoveryService serviceController configController context
                            (discoveryOptions (flags g));
              ingressSyncer = StatusSyncer (mesh g) (KubeArg (client g))
                                (controllerOptions (flags g));
              stop = Chan 0;
              tr2 = tr1 @ [Call_ingress_NewStatusSyncer ingressSyncer, MakeChan stop]
          in
          case serviceController of
            None \<Rightarrow> panics (NilInterfaceCall ''serviceController.Run'') tr2 g
          | Some sc \<Rightarrow>
              (case configController of
                 None \<Rightarrow>
                   panics (NilInterfaceCall ''configController.Run'')
                     (tr2 @ [Go (ServiceController_Run sc stop)]) g
               | Some cc \<Rightarrow>
                   ret None
                     (tr2 @ [Go (ServiceController_Run sc stop),
                             Go (ConfigController_Run cc stop),
                             Go (Discovery_Run discovery),
                             Go (IngressSyncer_Run ingressSyncer stop),
                             WaitSignal stop]) g)))"

text \<open>\<^verbatim>\<open>discoveryCmd.RunE\<close> (lines 147 to 204).\<close>

definition discoveryCmd :: "env \<Rightarrow> globals \<Rightarrow> run" where
  "discoveryCmd e g =
    (let f = flags g; opts = controllerOptions f;
         descriptor = [RouteRuleDescriptor, DestinationPolicyDescriptor]
     in
     if adapter f = KubernetesAdapter then
       (let tr0 = [Call_tpr_NewClient (kubeconfig f) descriptor (Namespace opts)] in
        case tpr_NewClient e (kubeconfig f) descriptor (Namespace opts) of
          Inl err \<Rightarrow> ret (Some (Prefix err ''failed to open a TPR client'')) tr0 g
        | Inr tprClient \<Rightarrow>
            (let tr1 = tr0 @ [Call_RegisterResources tprClient] in
             case tpr_RegisterResources e tprClient of
               Some err \<Rightarrow>
                 ret (Some (Prefix err ''failed to register Third-Party Resources.'')) tr1 g
             | None \<Rightarrow>
                 (let serviceController = KubeController (client g) (mesh g) opts;
                      tprController = TprController tprClient (ResyncPeriod opts);
                      ingressController = IngressController (client g) (mesh g) opts;
                      tr2 = tr1 @ [Call_kube_NewController serviceController,
                                   Call_tpr_NewController tprController,
                                   Call_ingress_NewController ingressController,
                                   Call_aggregate_MakeCache [tprController, ingressController]]
                  in
                  case aggregate_MakeCache e [tprController, ingressController] of
                    Some err \<Rightarrow> ret (Some err) tr2 g
                  | None \<Rightarrow>
                      (let ingressSyncer = StatusSyncer (mesh g) (KubeArg (client g)) opts in
                       discoveryCmd_rest e g (tr2 @ [Call_ingress_NewStatusSyncer ingressSyncer])
                         (Some serviceController)
                         (Some (AggregateCache [tprController, ingressController]))
                         (Some ingressSyncer)))))
     else if adapter f = VMsAdapter then
       (let controller = VmsController (vmsClient g) (mesh g);
            ingressSyncer = StatusSyncer (mesh g) (VmsArg (vmsClient g)) opts
        in
        discoveryCmd_rest e g
          [Call_vms_NewController controller, Call_ingress_NewStatusSyncer ingressSyncer]
          (Some (VmsServiceDiscovery controller)) (Some (VmsConfigStore controller))
          (Some ingressSyncer))
     else discoveryCmd_rest e g [] None None None)"

section \<open>The proxy commands\<close>

text \<open>Lines 264 to 287 of \<^verbatim>\<open>sidecarCmd.RunE\<close>: what follows the adapter branch,
  with the function-level variables as the branch left them. \<^verbatim>\<open>watcher, err :=\<close>
  on line 275 assigns the result parameter \<^verbatim>\<open>err\<close>, so both bare returns that follow
  return what \<^verbatim>\<open>NewWatcher\<close> returned.\<close>

definition sidecarCmd_rest ::
  "env \<Rightarrow> globals \<Rightarrow> event list \<Rightarrow> ServiceDiscovery option \<Rightarrow> ConfigStoreCache option
    \<Rightarrow> string \<Rightarrow> RegistrationAgent option \<Rightarrow> run" where
  "sidecarCmd_rest e g tr serviceController configController uid regAgent =
    (let context = \<lparr>Discovery = serviceController, Accounts = serviceController,
                     Config = MakeIstioStore configController, MeshConfig = mesh g,
                     IPAddress = ipAddress (flags g), UID = uid, Registraion = regAgent,
                     PassthroughPorts = passthrough (flags g)\<rparr>;
         tr1 = tr @ [Call_envoy_NewWatcher serviceController configController context]
     in
     case envoy_NewWatcher e serviceController configController context of
       Some err \<Rightarrow> ret (Some err) tr1 g
     | None \<Rightarrow>
         (let watcher = Watcher serviceController configController context;
              stop = Chan 0;
              tr2 = tr1 @ [MakeChan stop]
          in
          case serviceController of
            None \<Rightarrow> panics (NilInterfaceCall ''serviceController.Run'') tr2 g
          | Some sc \<Rightarrow>
              (case configController of
                 None \<Rightarrow>
                   panics (NilInterfaceCall ''configController.Run'')
                     (tr2 @ [Go (ServiceController_Run sc stop)]) g
               | Some cc \<Rightarrow>
                   ret None
                     (tr2 @ [Go (ServiceController_Run sc stop),
                             Go (ConfigController_Run cc stop),
                             Go (Watcher_Run watcher stop),
                             WaitSignal stop]) g)))"

text \<open>\<^verbatim>\<open>sidecarCmd.RunE\<close> (lines 215 to 288). Line 220 writes through the
  \<^verbatim>\<open>mesh\<close> pointer before anything else. In the Kubernetes branch
  \<^verbatim>\<open>serviceController\<close>, \<^verbatim>\<open>err\<close> and \<^verbatim>\<open>configController\<close> are
  declared with \<^verbatim>\<open>:=\<close>, so they are new variables of the branch: the function-level
  \<^verbatim>\<open>serviceController\<close> and \<^verbatim>\<open>configController\<close> stay nil, and the bare
  \<^verbatim>\<open>return\<close> of line 229 returns the result parameter \<^verbatim>\<open>err\<close>, which
  nothing has assigned. In the VMs branch \<^verbatim>\<open>regAgent\<close> is declared with
  \<^verbatim>\<open>:=\<close> as well, so the function-level \<^verbatim>\<open>regAgent\<close> stays nil.\<close>

definition sidecarCmd :: "env \<Rightarrow> globals \<Rightarrow> run" where
  "sidecarCmd e g0 =
    (case mesh g0 of
       None \<Rightarrow> panics (NilPointerDereference ''mesh.IngressControllerMode'') [] g0
     | Some m \<Rightarrow>
         (let g = g0\<lparr>mesh := Some (m\<lparr>IngressControllerMode := ProxyMeshConfig_OFF\<rparr>)\<rparr>;
              f = flags g; opts = controllerOptions f;
              descriptor = [RouteRuleDescriptor, DestinationPolicyDescriptor]
          in
          if adapter f = KubernetesAdapter then
            (let branch_serviceController = KubeController (client g) (mesh g) opts;
                 tr0 = [Call_kube_NewController branch_serviceController,
                        Call_tpr_NewClient (kubeconfig f) descriptor (Namespace opts)]
             in
             case tpr_NewClient e (kubeconfig f) descriptor (Namespace opts) of
               Inl branch_err \<Rightarrow> ret None tr0 g
             | Inr tprClient \<Rightarrow>
                 (let branch_configController = TprController tprClient (ResyncPeriod opts);
                      uid = ''kubernetes://'' @ podName f @ ''.'' @ Namespace opts
                  in
                  sidecarCmd_rest e g (tr0 @ [Call_tpr_NewController branch_configController])
                    None None uid None))
          else if adapter f = VMsAdapter then
            (let controller = VmsController (vmsClient g) (mesh g);
                 tr0 = [Call_vms_NewController controller,
                        Call_loadFromFile (config (vmsArgs f))]
             in
             case vmsconfig_loadFromFile e (config (vmsArgs f)) of
               Inl err \<Rightarrow> ret (Some (Prefix err ''failed to read vms config file.'')) tr0 g
             | Inr vmsConfig \<Rightarrow>
                 (let tr1 = tr0 @ [Call_identity_New vmsConfig] in
                  case identity_New e vmsConfig of
                    Inl err \<Rightarrow>
                      ret (Some (Prefix err ''failed to create identity for service.'')) tr1 g
                  | Inr identity \<Rightarrow>
                      (let tr2 = tr1 @ [Call_NewRegistrationAgent (vmsClient g) identity] in
                       case register_NewRegistrationAgent e (vmsClient g) identity of
                         Some err \<Rightarrow>
                           ret (Some (Prefix err ''failed to create registration agent.'')) tr2 g
                       | None \<Rightarrow>
                           sidecarCmd_rest e g tr2 (Some (VmsServiceDiscovery controller))
                             (Some (VmsConfigStore controller)) '''' None)))
          else sidecarCmd_rest e g [] None None '''' None))"

text \<open>\<^verbatim>\<open>ingressCmd.RunE\<close> (lines 294 to 305) and \<^verbatim>\<open>egressCmd.RunE\<close>
  (lines 311 to 320).\<close>

definition ingressCmd :: "env \<Rightarrow> globals \<Rightarrow> run" where
  "ingressCmd e g =
    (let secrets = MakeSecretRegistry (client g);
         tr0 = [Call_envoy_NewIngressWatcher (mesh g) secrets]
     in
     case envoy_NewIngressWatcher e (mesh g) secrets of
       Some err \<Rightarrow> ret (Some err) tr0 g
     | None \<Rightarrow>
         (let watcher = IngressWatcher (mesh g) secrets; stop = Chan 0 in
          ret None (tr0 @ [MakeChan stop, Go (Watcher_Run watcher stop), WaitSignal stop]) g))"

definition egressCmd :: "env \<Rightarrow> globals \<Rightarrow> run" where
  "egressCmd e g =
    (let tr0 = [Call_envoy_NewEgressWatcher (mesh g)] in
     case envoy_NewEgressWatcher e (mesh g) of
       Some err \<Rightarrow> ret (Some err) tr0 g
     | None \<Rightarrow>
         (let watcher = EgressWatcher (mesh g); stop = Chan 0 in
          ret None (tr0 @ [MakeChan stop, Go (Watcher_Run watcher stop), WaitSignal stop]) g))"

definition versionCmd :: "env \<Rightarrow> globals \<Rightarrow> run" where
  "versionCmd e g = ret None [Print_version] g"

section \<open>The process\<close>

datatype command = Discovery_cmd | Sidecar_cmd | Ingress_cmd | Egress_cmd | Version_cmd

fun RunE :: "command \<Rightarrow> env \<Rightarrow> globals \<Rightarrow> run" where
  "RunE Discovery_cmd = discoveryCmd"
| "RunE Sidecar_cmd = sidecarCmd"
| "RunE Ingress_cmd = ingressCmd"
| "RunE Egress_cmd = egressCmd"
| "RunE Version_cmd = versionCmd"

text \<open>\<^verbatim>\<open>rootCmd.Execute()\<close> for one selected command: the root's
  \<^verbatim>\<open>PersistentPreRunE\<close> runs first, and the command runs only if it returned nil.\<close>

definition Execute :: "command \<Rightarrow> env \<Rightarrow> globals \<Rightarrow> run" where
  "Execute c e g =
    (case PersistentPreRunE e g of
       (Some err, g') \<Rightarrow> ret (Some err) [] g'
     | (None, g') \<Rightarrow> RunE c e g')"

text \<open>\<^verbatim>\<open>main\<close> (lines 370 to 375): a non-nil error is logged and the process exits
  with \<^verbatim>\<open>os.Exit(-1)\<close>; otherwise \<^verbatim>\<open>main\<close> returns and the exit status is 0.
  A panic that nothing recovers ends a Go process with status 2.\<close>

record process =
  logged :: "error list"
  status :: int

definition main :: "command \<Rightarrow> env \<Rightarrow> globals \<Rightarrow> process" where
  "main c e g =
    (case outcome (Execute c e g) of
       Returned (Some err) \<Rightarrow> \<lparr>logged = [err], status = - 1\<rparr>
     | Returned None \<Rightarrow> \<lparr>logged = [], status = 0\<rparr>
     | Panicked p \<Rightarrow> \<lparr>logged = [], status = 2\<rparr>)"

section \<open>Reading a list of effects\<close>

text \<open>The calls of the \<^verbatim>\<open>go\<close> statements, in order.\<close>

fun launched :: "event list \<Rightarrow> goroutine list" where
  "launched [] = []"
| "launched (Go r # es) = r # launched es"
| "launched (_ # es) = launched es"

text \<open>The stop channel a call was given, if it was given one.\<close>

fun stop_arg :: "goroutine \<Rightarrow> chan option" where
  "stop_arg (ServiceController_Run sc stop) = Some stop"
| "stop_arg (ConfigController_Run cc stop) = Some stop"
| "stop_arg (Discovery_Run d) = None"
| "stop_arg (IngressSyncer_Run s stop) = Some stop"
| "stop_arg (Watcher_Run w stop) = Some stop"

text \<open>The channels made, and the channels \<^verbatim>\<open>cmd.WaitSignal\<close> was called with.\<close>

fun made_chans :: "event list \<Rightarrow> chan list" where
  "made_chans [] = []"
| "made_chans (MakeChan c # es) = c # made_chans es"
| "made_chans (_ # es) = made_chans es"

fun waited_chans :: "event list \<Rightarrow> chan list" where
  "waited_chans [] = []"
| "waited_chans (WaitSignal c # es) = c # waited_chans es"
| "waited_chans (_ # es) = waited_chans es"

text \<open>The status syncers constructed, and those whose \<^verbatim>\<open>Run\<close> was started.\<close>

fun constructed_syncers :: "event list \<Rightarrow> StatusSyncer list" where
  "constructed_syncers [] = []"
| "constructed_syncers (Call_ingress_NewStatusSyncer s # es) = s # constructed_syncers es"
| "constructed_syncers (_ # es) = constructed_syncers es"

fun started_syncers :: "event list \<Rightarrow> StatusSyncer list" where
  "started_syncers [] = []"
| "started_syncers (Go (IngressSyncer_Run s stop) # es) = s # started_syncers es"
| "started_syncers (_ # es) = started_syncers es"

section \<open>Goroutines\<close>

text \<open>
  The effects of a command are what its own goroutine does, in program order. What the started
  goroutines do in the meantime is decided by the scheduler, so a run of the process is the
  command's effects interleaved with steps of the loops it has started.
\<close>

datatype loop =
  ServiceController_loop | ConfigController_loop | Discovery_loop | IngressSyncer_loop
  | Watcher_loop

fun loop_of :: "goroutine \<Rightarrow> loop" where
  "loop_of (ServiceController_Run sc stop) = ServiceController_loop"
| "loop_of (ConfigController_Run cc stop) = ConfigController_loop"
| "loop_of (Discovery_Run d) = Discovery_loop"
| "loop_of (IngressSyncer_Run s stop) = IngressSyncer_loop"
| "loop_of (Watcher_Run w stop) = Watcher_loop"

text \<open>Modelled from the spec: the bodies of the \<^verbatim>\<open>Run\<close> methods are in other packages.
  A managed loop goes through the states of section 4.3 of the specification: it is
  \<open>Created\<close> until its \<^verbatim>\<open>go\<close> statement is executed, \<open>Starting\<close> until its first
  successful list or sync, \<open>Running\<close> until it observes the stop signal, \<open>Stopping\<close> until
  its goroutine has returned, and \<open>Stopped\<close> from then on.\<close>

datatype lifecycle = Created | Starting | Running | Stopping | Stopped

record system =
  pending :: "event list"
  loops :: "loop \<Rightarrow> lifecycle"
  stop_of :: "loop \<Rightarrow> chan option"
  signalled :: bool
  closed :: "chan list"

text \<open>The process at the moment the command is entered: all its effects are still to come.\<close>

definition start :: "run \<Rightarrow> system" where
  "start r =
    \<lparr>pending = effects r, loops = (\<lambda>l. Created), stop_of = (\<lambda>l. None), signalled = False,
     closed = []\<rparr>"

text \<open>Modelled from the spec: \<^verbatim>\<open>cmd.WaitSignal\<close> is in another package; it
  blocks until the termination signal of the operating system has arrived, then fires the stop
  signal it was given (closes the channel) and returns. The rest of a step of the command's
  goroutine is Go's: a \<^verbatim>\<open>go\<close> statement creates the goroutine and goes on at once,
  every other effect is a call that returns, and when nothing is pending the command has
  returned.\<close>

definition command_step :: "system \<Rightarrow> system" where
  "command_step s =
    (case pending s of
       [] \<Rightarrow> s
     | Go r # es \<Rightarrow>
         s\<lparr>pending := es, loops := (loops s)(loop_of r := Starting),
           stop_of := (stop_of s)(loop_of r := stop_arg r)\<rparr>
     | WaitSignal c # es \<Rightarrow>
         (if signalled s then s\<lparr>pending := es, closed := c # closed s\<rparr> else s)
     | _ # es \<Rightarrow> s\<lparr>pending := es\<rparr>)"

text \<open>Modelled from the spec: one transition of a started loop, by the state machine of
  section 4.3. \<open>fired\<close> tells whether the loop can observe that its stop signal has
  fired.\<close>

fun next_state :: "lifecycle \<Rightarrow> bool \<Rightarrow> lifecycle" where
  "next_state Created fired = Created"
| "next_state Starting fired = Running"
| "next_state Running fired = (if fired then Stopping else Running)"
| "next_state Stopping fired = Stopped"
| "next_state Stopped fired = Stopped"

text \<open>Modelled from the spec: one step of a loop in the process. A loop observes the stop
  signal when the channel it was given has been closed; a loop that was given no channel has
  nothing to observe and stays \<open>Running\<close>.\<close>

definition loop_step :: "loop \<Rightarrow> system \<Rightarrow> system" where
  "loop_step l s =
    s\<lparr>loops := (loops s)
        (l := next_state (loops s l)
                (case stop_of s l of None \<Rightarrow> False | Some c \<Rightarrow> c \<in> set (closed s)))\<rparr>"

datatype turn = Command_step | Loop_step loop | Signal_arrives

fun step :: "turn \<Rightarrow> system \<Rightarrow> system" where
  "step Command_step s = command_step s"
| "step (Loop_step l) s = loop_step l s"
| "step Signal_arrives s = s\<lparr>signalled := True\<rparr>"

fun schedule :: "turn list \<Rightarrow> system \<Rightarrow> system" where
  "schedule [] s = s"
| "schedule (x # xs) s = schedule xs (step x s)"

fun is_Loop_step :: "turn \<Rightarrow> bool" where
  "is_Loop_step (Loop_step l) = True"
| "is_Loop_step _ = False"

text \<open>The consumer loops: the discovery responder, the ingress status syncer and the proxy
  configuration watcher.\<close>

definition consumers :: "loop list" where
  "consumers = [Discovery_loop, IngressSyncer_loop, Watcher_loop]"

section \<open>The aggregate configuration cache\<close>

text \<open>Modelled from the spec: package \<^verbatim>\<open>aggregate\<close> (\<^verbatim>\<open>MakeCache\<close> and the
  \<^verbatim>\<open>Get\<close> and \<^verbatim>\<open>List\<close> of the cache it returns) is not among the sources. The
  definitions of this section follow sections 3 and 4.2 of the specification. A configuration
  key is (kind, namespace, name); an object carries its key, a revision token and an opaque
  payload; a source is the list of the objects it currently holds.\<close>

type_synonym ConfigKey = "string \<times> string \<times> string"

text \<open>Modelled from the spec: a configuration object (section 3) carries its key, a revision
  token and an opaque payload.\<close>

record ConfigObject =
  key :: ConfigKey
  revision :: string
  payload :: string

text \<open>Modelled from the spec: a source (section 4.1), as the list of the objects it currently
  holds.\<close>

type_synonym ConfigSource = "ConfigObject list"

text \<open>Modelled from the spec: the merged view. The index holds at most one object per key; an
  object whose key is already claimed is suppressed and recorded as a conflict.\<close>

record merged =
  index :: "ConfigObject list"
  conflicts :: "ConfigObject list"

text \<open>Modelled from the spec: a key is claimed once the merged view holds an object for
  it.\<close>

definition claimed :: "merged \<Rightarrow> ConfigKey \<Rightarrow> bool" where
  "claimed m k = (k \<in> key ` set (index m))"

text \<open>Modelled from the spec: the conflict rule of section 3. An object whose key is already
  claimed loses: it is kept out of the merged view and recorded as a conflict.\<close>

definition add_object :: "ConfigObject \<Rightarrow> merged \<Rightarrow> merged" where
  "add_object obj m =
    (if claimed m (key obj) then m\<lparr>conflicts := conflicts m @ [obj]\<rparr>
     else m\<lparr>index := index m @ [obj]\<rparr>)"

text \<open>Modelled from the spec: the objects of one source enter the merged view in the source's
  order.\<close>

definition add_source :: "ConfigSource \<Rightarrow> merged \<Rightarrow> merged" where
  "add_source src m = fold add_object src m"

text \<open>Modelled from the spec: the sources are merged in the order of their registration, so
  the first-registered source wins a key.\<close>

definition merge_sources :: "ConfigSource list \<Rightarrow> merged" where
  "merge_sources srcs = fold add_source srcs \<lparr>index = [], conflicts = []\<rparr>"

text \<open>Modelled from the spec: \<^verbatim>\<open>Get\<close> returns the object of a key, or not-found.\<close>

definition Get :: "merged \<Rightarrow> ConfigKey \<Rightarrow> ConfigObject option" where
  "Get m k = find (\<lambda>obj. key obj = k) (index m)"

text \<open>Modelled from the spec: \<^verbatim>\<open>List\<close> returns the objects of a kind, the per-source lists
  concatenated after conflict resolution.\<close>

definition List :: "merged \<Rightarrow> string \<Rightarrow> ConfigObject list" where
  "List m knd = filter (\<lambda>obj. fst (key obj) = knd) (index m)"

section \<open>Concrete inputs\<close>

text \<open>The flag defaults of \<^verbatim>\<open>init\<close> (lines 332 to 368); the resync period is one second in
  nanoseconds. The name of the mesh ConfigMap is a constant of another package, so the value
  here is an example.\<close>

definition default_flags :: args where
  "default_flags =
    \<lparr>kubeconfig = '''', meshConfig = ''istio'', ipAddress = '''', podName = '''',
     passthrough = [],
     controllerOptions =
       \<lparr>Namespace = '''', ResyncPeriod = 1000000000, DomainSuffix = ''cluster.local''\<rparr>,
     discoveryOptions = \<lparr>Port = 8080, EnableProfiling = True, EnableCaching = True\<rparr>,
     adapter = '''',
     vmsArgs = \<lparr>config = '''', serverURL = '''', authToken = ''''\<rparr>\<rparr>"

text \<open>An environment in which every call into another package succeeds.\<close>

definition env_ok :: env where
  "env_ok =
    \<lparr>os_Getenv = (\<lambda>name. if name = ''POD_NAMESPACE'' then ''default'' else ''''),
     kube_CreateInterface = (\<lambda>path. Inr (KubeInterface 0)),
     cmd_GetMeshConfig =
       (\<lambda>c ns name. Inr \<lparr>IngressControllerMode = ProxyMeshConfig_DEFAULT, otherFields = 0\<rparr>),
     vmsclient_New = (\<lambda>url token. Inr (VmsClient 0)),
     proxy_DefaultMeshConfig =
       \<lparr>IngressControllerMode = ProxyMeshConfig_DEFAULT, otherFields = 0\<rparr>,
     tpr_NewClient = (\<lambda>path descriptor ns. Inr (TprClient 0)),
     tpr_RegisterResources = (\<lambda>c. None),
     aggregate_MakeCache = (\<lambda>stores. None),
     envoy_NewDiscoveryService = (\<lambda>sd cc ctx opts. None),
     envoy_NewWatcher = (\<lambda>sd cc ctx. None),
     envoy_NewIngressWatcher = (\<lambda>m s. None),
     envoy_NewEgressWatcher = (\<lambda>m. None),
     vmsconfig_loadFromFile = (\<lambda>path. Inr (VmsConfig 0)),
     identity_New = (\<lambda>c. Inr (Identity 0)),
     register_NewRegistrationAgent = (\<lambda>c i. None)\<rparr>"

text \<open>The package-level state after \<^verbatim>\<open>PersistentPreRunE\<close> has succeeded in
  \<open>env_ok\<close>, under the Kubernetes adapter and under the VMs adapter.\<close>

definition kube_globals :: globals where
  "kube_globals =
    \<lparr>flags = default_flags
       \<lparr>adapter := KubernetesAdapter,
        controllerOptions := (controllerOptions default_flags)\<lparr>Namespace := ''default''\<rparr>\<rparr>,
     client = Some (KubeInterface 0), vmsClient = None,
     mesh = Some \<lparr>IngressControllerMode = ProxyMeshConfig_DEFAULT, otherFields = 0\<rparr>\<rparr>"

definition vms_globals :: globals where
  "vms_globals =
    \<lparr>flags = default_flags\<lparr>adapter := VMsAdapter\<rparr>,
     client = None, vmsClient = Some (VmsClient 0),
     mesh = Some \<lparr>IngressControllerMode = ProxyMeshConfig_DEFAULT, otherFields = 0\<rparr>\<rparr>"

text \<open>Environments in which one call fails and every other call succeeds.\<close>

definition env_NewClient_fails :: env where
  "env_NewClient_fails =
    env_ok\<lparr>tpr_NewClient := (\<lambda>path descriptor ns. Inl (Failure ''cannot open TPR client''))\<rparr>"

definition env_Register_fails :: env where
  "env_Register_fails =
    env_ok\<lparr>tpr_RegisterResources := (\<lambda>c. Some (Failure ''registration refused''))\<rparr>"

definition env_MakeCache_fails :: env where
  "env_MakeCache_fails =
    env_ok\<lparr>aggregate_MakeCache := (\<lambda>stores. Some (Failure ''a source failed to start''))\<rparr>"

text \<open>The scenario of section 8 of the specification: sources \<open>A\<close> and \<open>B\<close> both publish an
  object for the key (route, default, r1), with different payloads, \<open>A\<close> registered first.\<close>

definition route_A :: ConfigObject where
  "route_A = \<lparr>key = (''route'', ''default'', ''r1''), revision = ''1'', payload = ''A''\<rparr>"

definition route_B :: ConfigObject where
  "route_B = \<lparr>key = (''route'', ''default'', ''r1''), revision = ''1'', payload = ''B''\<rparr>"

section \<open>Predicates used in the proofs\<close>

text \<open>The proxy context the sidecar command builds under the Kubernetes adapter: both
  controllers are nil, since the ones constructed in the branch are variables of the branch.\<close>

definition sidecar_kube_context :: "globals \<Rightarrow> Context" where
  "sidecar_kube_context g =
    \<lparr>Discovery = None, Accounts = None, Config = MakeIstioStore None, MeshConfig = mesh g,
     IPAddress = ipAddress (flags g),
     UID = ''kubernetes://'' @ podName (flags g) @ ''.'' @ Namespace (controllerOptions (flags g)),
     Registraion = None, PassthroughPorts = passthrough (flags g)\<rparr>"

text \<open>In a list of effects still to come, every consumer is started after both controllers,
  given which controllers have been started already.\<close>

fun controllers_first :: "bool \<Rightarrow> bool \<Rightarrow> event list \<Rightarrow> bool" where
  "controllers_first svc cfg [] = True"
| "controllers_first svc cfg (Go (ServiceController_Run sc stop) # es) =
     controllers_first True cfg es"
| "controllers_first svc cfg (Go (ConfigController_Run cc stop) # es) =
     controllers_first svc True es"
| "controllers_first svc cfg (Go r # es) = (svc \<and> cfg \<and> controllers_first svc cfg es)"
| "controllers_first svc cfg (_ # es) = controllers_first svc cfg es"

text \<open>What holds of the process at every moment: the effects still to come start every consumer
  after both controllers, and a consumer that has been started finds both controllers
  started.\<close>

definition started :: "system \<Rightarrow> loop \<Rightarrow> bool" where
  "started s l = (loops s l \<noteq> Created)"

definition order_inv :: "system \<Rightarrow> bool" where
  "order_inv s =
    (controllers_first (started s ServiceController_loop) (started s ConfigController_loop)
       (pending s)
     \<and> ((\<exists>l \<in> set consumers. started s l) \<longrightarrow>
          started s ServiceController_loop \<and> started s ConfigController_loop))"

text \<open>What the command's goroutine can see of the process: its own pending effects and
  whether the signal has arrived.\<close>

definition command_view :: "system \<Rightarrow> event list \<times> bool" where
  "command_view s = (pending s, signalled s)"

text \<open>A step of the command changes that view by a function of the view alone.\<close>

definition view_step :: "event list \<times> bool \<Rightarrow> event list \<times> bool" where
  "view_step v =
    (case fst v of
       [] \<Rightarrow> v
     | WaitSignal c # es \<Rightarrow> (if snd v then (es, snd v) else v)
     | _ # es \<Rightarrow> (es, snd v))"

text \<open>The effects still to come use one stop channel: every call started is given it, unless it
  is the discovery responder's, and \<^verbatim>\<open>cmd.WaitSignal\<close> is called with it, as the last
  effect only.\<close>

fun uses_stop :: "chan \<Rightarrow> event list \<Rightarrow> bool" where
  "uses_stop stop [] = True"
| "uses_stop stop [WaitSignal c] = (c = stop)"
| "uses_stop stop (WaitSignal c # es) = False"
| "uses_stop stop (Go r # es) =
     ((stop_arg r = Some stop \<or> loop_of r = Discovery_loop) \<and> uses_stop stop es)"
| "uses_stop stop (_ # es) = uses_stop stop es"

text \<open>What holds of the process at every moment, for the stop channel of the command: the
  effects still to come use it, every loop started but the discovery responder holds it, and
  once a channel is closed it is that one and the command has nothing left to do.\<close>

definition stop_inv :: "chan \<Rightarrow> system \<Rightarrow> bool" where
  "stop_inv stop s =
    (uses_stop stop (pending s)
     \<and> (\<forall>l. loops s l \<noteq> Created \<longrightarrow> l = Discovery_loop \<or> stop_of s l = Some stop)
     \<and> (closed s \<noteq> [] \<longrightarrow> pending s = [])
     \<and> set (closed s) \<subseteq> {stop})"

text \<open>The discovery responder holds no stop channel and is neither stopping nor stopped.\<close>

definition responder_inv :: "system \<Rightarrow> bool" where
  "responder_inv s =
    (stop_of s Discovery_loop = None \<and> loops s Discovery_loop \<noteq> Stopping
     \<and> loops s Discovery_loop \<noteq> Stopped)"

text \<open>The steps a started loop takes from a state to \<open>Stopped\<close> once its stop signal has
  fired, and the steps a schedule gives to a loop.\<close>

fun steps_to_Stopped :: "lifecycle \<Rightarrow> nat" where
  "steps_to_Stopped Created = 0"
| "steps_to_Stopped Starting = 3"
| "steps_to_Stopped Running = 2"
| "steps_to_Stopped Stopping = 1"
| "steps_to_Stopped Stopped = 0"

definition turns_of :: "loop \<Rightarrow> turn list \<Rightarrow> nat" where
  "turns_of l xs = length (filter (\<lambda>x. x = Loop_step l) xs)"

section \<open>Unfolding the commands\<close>

lemmas command_defs =
  discoveryCmd_def discoveryCmd_rest_def sidecarCmd_def sidecarCmd_rest_def
  ingressCmd_def egressCmd_def versionCmd_def ret_def panics_def Let_def

lemmas input_defs =
  env_ok_def kube_globals_def vms_globals_def default_flags_def initial_globals_def
  KubernetesAdapter_def VMsAdapter_def

section \<open>Failure to open the TPR client\<close>

lemma PersistentPreRunE_env_NewClient_fails:
  "PersistentPreRunE env_NewClient_fails (initial_globals default_flags) = (None, kube_globals)"
  by (simp add: PersistentPreRunE_def set_from_environment_def env_NewClient_fails_def input_defs
        Let_def)

lemma discoveryCmd_NewClient_failure:
  assumes "adapter (flags g) = KubernetesAdapter"
    and "tpr_NewClient e (kubeconfig (flags g)) [RouteRuleDescriptor, DestinationPolicyDescriptor]
           (Namespace (controllerOptions (flags g))) = Inl err"
  shows "outcome (discoveryCmd e g) = Returned (Some (Prefix err ''failed to open a TPR client''))"
    and "\<forall>r. Go r \<notin> set (effects (discoveryCmd e g))"
  using assms by (simp_all add: command_defs)

lemma sidecarCmd_NewClient_failure:
  assumes "adapter (flags g) = KubernetesAdapter"
    and "mesh g \<noteq> None"
    and "tpr_NewClient e (kubeconfig (flags g)) [RouteRuleDescriptor, DestinationPolicyDescriptor]
           (Namespace (controllerOptions (flags g))) = Inl err"
  shows "outcome (sidecarCmd e g) = Returned None"
    and "\<forall>r. Go r \<notin> set (effects (sidecarCmd e g))"
  using assms by (auto simp: command_defs)

text \<open>
  Claim C1, at the input where it fails. The process is started with the default flags (so the
  adapter is Kubernetes) and \<^verbatim>\<open>tpr.NewClient\<close> returns an error. The discovery
  command returns the prefixed error, and \<^verbatim>\<open>main\<close> logs it and exits with
  \<^verbatim>\<open>os.Exit(-1)\<close>. The sidecar command starts no loop either, but its bare
  \<^verbatim>\<open>return\<close> returns the result parameter \<^verbatim>\<open>err\<close>, not the
  \<^verbatim>\<open>err\<close> of the branch: \<^verbatim>\<open>RunE\<close> returns nil, nothing is logged and the
  exit status is 0.
\<close>

theorem sidecarCmd_NewClient_failure_exits_0:
  "outcome (sidecarCmd env_NewClient_fails kube_globals) = Returned None
   \<and> launched (effects (sidecarCmd env_NewClient_fails kube_globals)) = []
   \<and> main Sidecar_cmd env_NewClient_fails (initial_globals default_flags)
       = \<lparr>logged = [], status = 0\<rparr>
   \<and> main Discovery_cmd env_NewClient_fails (initial_globals default_flags)
       = \<lparr>logged = [Prefix (Failure ''cannot open TPR client'') ''failed to open a TPR client''],
          status = - 1\<rparr>"
proof -
  have pre: "\<And>c. Execute c env_NewClient_fails (initial_globals default_flags)
      = RunE c env_NewClient_fails kube_globals"
    by (simp add: Execute_def PersistentPreRunE_env_NewClient_fails)
  have sidecar: "outcome (sidecarCmd env_NewClient_fails kube_globals) = Returned None"
    and none: "launched (effects (sidecarCmd env_NewClient_fails kube_globals)) = []"
    by (simp_all add: command_defs env_NewClient_fails_def input_defs)
  have discovery: "outcome (discoveryCmd env_NewClient_fails kube_globals)
      = Returned (Some (Prefix (Failure ''cannot open TPR client'')
                         ''failed to open a TPR client''))"
    by (simp add: command_defs env_NewClient_fails_def input_defs)
  show ?thesis
    by (simp add: main_def pre sidecar none discovery)
qed

section \<open>The ingress status syncer of the discovery command\<close>

text \<open>
  Claim C2, at the input where it fails: the discovery command under the VMs adapter, every
  constructor succeeding. Two status syncers are constructed, the first with the VMs client
  (line 180), the second with the Kubernetes \<^verbatim>\<open>client\<close> (line 194), which is nil
  under the VMs adapter; the one whose \<^verbatim>\<open>Run\<close> is started is the second.
\<close>

theorem discoveryCmd_VMs_runs_second_syncer:
  "constructed_syncers (effects (discoveryCmd env_ok vms_globals))
     = [StatusSyncer (mesh vms_globals) (VmsArg (Some (VmsClient 0)))
          (controllerOptions (flags vms_globals)),
        StatusSyncer (mesh vms_globals) (KubeArg None) (controllerOptions (flags vms_globals))]
   \<and> started_syncers (effects (discoveryCmd env_ok vms_globals))
     = [StatusSyncer (mesh vms_globals) (KubeArg None) (controllerOptions (flags vms_globals))]"
  by (simp add: command_defs input_defs)

section \<open>The stop channel\<close>

text \<open>
  Claim C3 as stated fails for the discovery responder: in the discovery command under the
  Kubernetes adapter, every constructor succeeding, four goroutines are started, and the
  third, \<^verbatim>\<open>discovery.Run()\<close>, is given no stop channel.
\<close>

theorem discoveryCmd_Discovery_Run_without_stop:
  "map stop_arg (launched (effects (discoveryCmd env_ok kube_globals)))
     = [Some (Chan 0), Some (Chan 0), None, Some (Chan 0)]"
  by (simp add: command_defs input_defs)

lemma one_stop_channel:
  "launched (effects (RunE c e g)) \<noteq> [] \<Longrightarrow>
     made_chans (effects (RunE c e g)) = [Chan 0]
     \<and> (\<forall>r \<in> set (launched (effects (RunE c e g))).
           stop_arg r = Some (Chan 0) \<or> (\<exists>d. r = Discovery_Run d))
     \<and> waited_chans (effects (RunE c e g)) = [Chan 0]"
proof (cases c)
  case Discovery_cmd
  assume "launched (effects (RunE c e g)) \<noteq> []"
  with Discovery_cmd show ?thesis
    by (auto simp: command_defs split: if_splits sum.splits option.splits)
next
  case Sidecar_cmd
  assume "launched (effects (RunE c e g)) \<noteq> []"
  with Sidecar_cmd show ?thesis
    by (auto simp: command_defs split: if_splits sum.splits option.splits)
next
  case Ingress_cmd
  assume "launched (effects (RunE c e g)) \<noteq> []"
  with Ingress_cmd show ?thesis
    by (auto simp: command_defs split: option.splits)
next
  case Egress_cmd
  assume "launched (effects (RunE c e g)) \<noteq> []"
  with Egress_cmd show ?thesis
    by (auto simp: command_defs split: option.splits)
next
  case Version_cmd
  assume "launched (effects (RunE c e g)) \<noteq> []"
  with Version_cmd show ?thesis
    by (simp add: command_defs)
qed

lemma uses_stop_RunE: "uses_stop (Chan 0) (effects (RunE c e g))"
proof (cases c)
  case Discovery_cmd
  then show ?thesis
    by (simp add: command_defs split: if_splits sum.splits option.splits)
next
  case Sidecar_cmd
  then show ?thesis
    by (simp add: command_defs split: if_splits sum.splits option.splits)
next
  case Ingress_cmd
  then show ?thesis
    by (simp add: command_defs split: option.splits)
next
  case Egress_cmd
  then show ?thesis
    by (simp add: command_defs split: option.splits)
next
  case Version_cmd
  then show ?thesis
    by (simp add: command_defs)
qed

lemma uses_stop_tail: "uses_stop stop (ev # es) \<Longrightarrow> uses_stop stop es"
  by (cases ev; cases es) simp_all

lemma uses_stop_WaitSignal: "uses_stop stop (WaitSignal c # es) \<Longrightarrow> c = stop \<and> es = []"
  by (cases es) simp_all

lemma next_state_started: "(next_state st fired \<noteq> Created) = (st \<noteq> Created)"
  by (cases st) simp_all

lemma stop_inv_loop_step: "stop_inv stop s \<Longrightarrow> stop_inv stop (loop_step l s)"
  by (simp add: stop_inv_def loop_step_def next_state_started)

lemma stop_inv_command_step:
  assumes "stop_inv stop s"
  shows "stop_inv stop (command_step s)"
proof (cases "pending s")
  case Nil
  with assms show ?thesis
    by (simp add: command_step_def)
next
  case (Cons ev es)
  with assms have tail: "uses_stop stop es" and head: "uses_stop stop (ev # es)"
    and unclosed: "closed s = []"
    by (auto simp: stop_inv_def dest: uses_stop_tail)
  show ?thesis
  proof (cases ev)
    case (Go r)
    with assms Cons head tail unclosed show ?thesis
      by (auto simp: stop_inv_def command_step_def)
  next
    case (WaitSignal c)
    with head have "c = stop" and "es = []"
      by (auto dest: uses_stop_WaitSignal)
    with assms Cons WaitSignal unclosed show ?thesis
      by (auto simp: stop_inv_def command_step_def)
  qed (use assms Cons tail unclosed in \<open>auto simp: stop_inv_def command_step_def\<close>)
qed

lemma stop_inv_step: "stop_inv stop s \<Longrightarrow> stop_inv stop (step x s)"
proof (cases x)
  case Command_step
  assume "stop_inv stop s"
  with Command_step show ?thesis by (simp add: stop_inv_command_step)
next
  case (Loop_step l)
  assume "stop_inv stop s"
  with Loop_step show ?thesis by (simp add: stop_inv_loop_step)
next
  case Signal_arrives
  assume "stop_inv stop s"
  with Signal_arrives show ?thesis by (simp add: stop_inv_def)
qed

lemma stop_inv_schedule: "stop_inv stop s \<Longrightarrow> stop_inv stop (schedule xs s)"
  by (induction xs arbitrary: s) (simp_all add: stop_inv_step del: step.simps)

lemma stop_inv_start: "uses_stop stop (effects r) \<Longrightarrow> stop_inv stop (start r)"
  by (simp add: stop_inv_def start_def)

lemma responder_inv_step: "responder_inv s \<Longrightarrow> responder_inv (step x s)"
proof (cases x)
  case Command_step
  assume inv: "responder_inv s"
  show ?thesis
  proof (cases "pending s")
    case Nil
    with inv Command_step show ?thesis
      by (simp add: command_step_def)
  next
    case (Cons ev es)
    show ?thesis
    proof (cases ev)
      case (Go r)
      with inv Cons Command_step show ?thesis
        by (cases r) (simp_all add: responder_inv_def command_step_def)
    next
      case (WaitSignal c)
      with inv Cons Command_step show ?thesis
        by (simp add: responder_inv_def command_step_def)
    qed (use inv Cons Command_step in \<open>simp_all add: responder_inv_def command_step_def\<close>)
  qed
next
  case (Loop_step l)
  assume "responder_inv s"
  with Loop_step show ?thesis
    by (cases "loops s Discovery_loop") (auto simp: responder_inv_def loop_step_def)
next
  case Signal_arrives
  assume "responder_inv s"
  with Signal_arrives show ?thesis by (simp add: responder_inv_def)
qed

lemma responder_inv_schedule: "responder_inv s \<Longrightarrow> responder_inv (schedule xs s)"
  by (induction xs arbitrary: s) (simp_all add: responder_inv_step del: step.simps)

lemma responder_inv_start: "responder_inv (start r)"
  by (simp add: responder_inv_def start_def)

lemma schedule_append: "schedule (xs @ ys) s = schedule ys (schedule xs s)"
  by (induction xs arbitrary: s) simp_all

lemma steps_to_Stopped_next:
  "st \<noteq> Created \<Longrightarrow> steps_to_Stopped (next_state st True) = steps_to_Stopped st - 1"
  by (cases st) simp_all

lemma steps_to_Stopped_0: "st \<noteq> Created \<Longrightarrow> steps_to_Stopped st = 0 \<Longrightarrow> st = Stopped"
  by (cases st) simp_all

text \<open>Once the command has returned and the stop channel of a started loop is closed, the loop
  is \<open>Stopped\<close> as soon as the schedule has given it the steps it needs.\<close>

lemma loop_exits:
  assumes "pending s = []" and "stop_of s l = Some stop" and "stop \<in> set (closed s)"
    and "loops s l \<noteq> Created" and "steps_to_Stopped (loops s l) \<le> turns_of l ys"
  shows "loops (schedule ys s) l = Stopped"
  using assms
proof (induction ys arbitrary: s)
  case Nil
  then show ?case
    by (simp add: turns_of_def steps_to_Stopped_0)
next
  case (Cons x ys)
  show ?case
  proof (cases "x = Loop_step l")
    case True
    let ?s = "loop_step l s"
    from Cons.prems have fired: "loops ?s l = next_state (loops s l) True"
      by (simp add: loop_step_def)
    with Cons.prems have "steps_to_Stopped (loops ?s l) \<le> turns_of l ys"
      by (simp add: turns_of_def True steps_to_Stopped_next)
    moreover from Cons.prems fired have "loops ?s l \<noteq> Created"
      by (simp add: next_state_started)
    moreover from Cons.prems have "pending ?s = []" and "stop_of ?s l = Some stop"
      and "stop \<in> set (closed ?s)"
      by (simp_all add: loop_step_def)
    ultimately have "loops (schedule ys ?s) l = Stopped"
      by (intro Cons.IH)
    with True show ?thesis by simp
  next
    case False
    let ?s = "step x s"
    from False Cons.prems have same: "pending ?s = []" "stop_of ?s l = Some stop"
      "stop \<in> set (closed ?s)" "loops ?s l = loops s l"
      by (cases x; simp add: command_step_def loop_step_def)+
    with False Cons.prems have "steps_to_Stopped (loops ?s l) \<le> turns_of l ys"
      and "loops ?s l \<noteq> Created"
      by (simp_all add: turns_of_def)
    with same have "loops (schedule ys ?s) l = Stopped"
      by (intro Cons.IH)
    then show ?thesis by simp
  qed
qed

text \<open>
  Claim C3, amended. In every command that starts a goroutine, exactly one channel is made
  in the run; every call started is given that channel as its stop argument, except the
  discovery responder's \<^verbatim>\<open>Run\<close>, which takes none; and \<^verbatim>\<open>cmd.WaitSignal\<close> is
  called with that channel. So when the signal has fired (the channel is closed), every loop
  that was started with it observes it and exits: under every schedule it is \<open>Stopped\<close> once
  it has taken three more steps. The discovery responder, which was not given the channel,
  is never stopping or stopped.
\<close>

theorem stop_channel_shared:
  "launched (effects (RunE c e g)) \<noteq> [] \<longrightarrow>
     (\<exists>stop. made_chans (effects (RunE c e g)) = [stop]
        \<and> (\<forall>r \<in> set (launched (effects (RunE c e g))).
              stop_arg r = Some stop \<or> (\<exists>d. r = Discovery_Run d))
        \<and> waited_chans (effects (RunE c e g)) = [stop]
        \<and> (\<forall>xs ys l.
              l \<noteq> Discovery_loop
              \<and> loops (schedule xs (start (RunE c e g))) l \<noteq> Created
              \<and> stop \<in> set (closed (schedule xs (start (RunE c e g))))
              \<and> 3 \<le> turns_of l ys \<longrightarrow>
              loops (schedule (xs @ ys) (start (RunE c e g))) l = Stopped)
        \<and> (\<forall>xs. loops (schedule xs (start (RunE c e g))) Discovery_loop
              \<notin> {Stopping, Stopped}))"
proof
  assume "launched (effects (RunE c e g)) \<noteq> []"
  then have trace: "made_chans (effects (RunE c e g)) = [Chan 0]
      \<and> (\<forall>r \<in> set (launched (effects (RunE c e g))).
            stop_arg r = Some (Chan 0) \<or> (\<exists>d. r = Discovery_Run d))
      \<and> waited_chans (effects (RunE c e g)) = [Chan 0]"
    by (rule one_stop_channel)
  have exits: "loops (schedule (xs @ ys) (start (RunE c e g))) l = Stopped"
    if "l \<noteq> Discovery_loop
      \<and> loops (schedule xs (start (RunE c e g))) l \<noteq> Created
      \<and> Chan 0 \<in> set (closed (schedule xs (start (RunE c e g))))
      \<and> 3 \<le> turns_of l ys" for xs ys l
  proof -
    let ?s = "schedule xs (start (RunE c e g))"
    have inv: "stop_inv (Chan 0) ?s"
      by (intro stop_inv_schedule stop_inv_start uses_stop_RunE)
    with that have "pending ?s = []" and "stop_of ?s l = Some (Chan 0)"
      by (auto simp: stop_inv_def)
    moreover have "steps_to_Stopped (loops ?s l) \<le> 3"
      by (cases "loops ?s l") simp_all
    with that have "steps_to_Stopped (loops ?s l) \<le> turns_of l ys"
      by simp
    ultimately have "loops (schedule ys ?s) l = Stopped"
      using that by (intro loop_exits [where stop = "Chan 0"]) simp_all
    then show ?thesis
      by (simp add: schedule_append)
  qed
  have responder: "loops (schedule xs (start (RunE c e g))) Discovery_loop \<notin> {Stopping, Stopped}"
    for xs
    using responder_inv_schedule [OF responder_inv_start, of xs "RunE c e g"]
    by (simp add: responder_inv_def)
  from trace exits responder show "\<exists>stop. made_chans (effects (RunE c e g)) = [stop]
        \<and> (\<forall>r \<in> set (launched (effects (RunE c e g))).
              stop_arg r = Some stop \<or> (\<exists>d. r = Discovery_Run d))
        \<and> waited_chans (effects (RunE c e g)) = [stop]
        \<and> (\<forall>xs ys l.
              l \<noteq> Discovery_loop
              \<and> loops (schedule xs (start (RunE c e g))) l \<noteq> Created
              \<and> stop \<in> set (closed (schedule xs (start (RunE c e g))))
              \<and> 3 \<le> turns_of l ys \<longrightarrow>
              loops (schedule (xs @ ys) (start (RunE c e g))) l = Stopped)
        \<and> (\<forall>xs. loops (schedule xs (start (RunE c e g))) Discovery_loop
              \<notin> {Stopping, Stopped})"
    by (intro exI [of _ "Chan 0"]) blast
qed

text \<open>The theorem at the discovery command under the Kubernetes adapter, every constructor
  succeeding. The command executes its fourteen effects before \<^verbatim>\<open>cmd.WaitSignal\<close>, the
  signal arrives and the command closes the stop channel; the service controller is then
  \<open>Stopped\<close> after its three steps, and the discovery responder, given as many, is
  \<open>Running\<close>.\<close>

theorem stop_channel_shared_witness:
  "made_chans (effects (RunE Discovery_cmd env_ok kube_globals)) = [Chan 0]
   \<and> waited_chans (effects (RunE Discovery_cmd env_ok kube_globals)) = [Chan 0]
   \<and> closed (schedule (replicate 14 Command_step @ [Signal_arrives, Command_step])
        (start (RunE Discovery_cmd env_ok kube_globals))) = [Chan 0]
   \<and> loops (schedule
        ((replicate 14 Command_step @ [Signal_arrives, Command_step])
         @ [Loop_step ServiceController_loop, Loop_step Discovery_loop,
            Loop_step ServiceController_loop, Loop_step Discovery_loop,
            Loop_step ServiceController_loop, Loop_step Discovery_loop])
        (start (RunE Discovery_cmd env_ok kube_globals))) ServiceController_loop = Stopped
   \<and> loops (schedule
        ((replicate 14 Command_step @ [Signal_arrives, Command_step])
         @ [Loop_step ServiceController_loop, Loop_step Discovery_loop,
            Loop_step ServiceController_loop, Loop_step Discovery_loop,
            Loop_step ServiceController_loop, Loop_step Discovery_loop])
        (start (RunE Discovery_cmd env_ok kube_globals))) Discovery_loop = Running"
proof -
  let ?r = "RunE Discovery_cmd env_ok kube_globals"
  let ?xs = "replicate 14 Command_step @ [Signal_arrives, Command_step]"
  let ?ys = "[Loop_step ServiceController_loop, Loop_step Discovery_loop,
              Loop_step ServiceController_loop, Loop_step Discovery_loop,
              Loop_step ServiceController_loop, Loop_step Discovery_loop]"
  have started: "launched (effects ?r) \<noteq> []"
    by (simp add: command_defs input_defs)
  have made: "made_chans (effects ?r) = [Chan 0]"
    by (simp add: command_defs input_defs)
  have fired: "closed (schedule ?xs (start ?r)) = [Chan 0]"
    and controller: "loops (schedule ?xs (start ?r)) ServiceController_loop \<noteq> Created"
    by (simp_all add: command_defs input_defs start_def command_step_def eval_nat_numeral)
  have turns: "3 \<le> turns_of ServiceController_loop ?ys"
    by (simp add: turns_of_def)
  have responder: "loops (schedule (?xs @ ?ys) (start ?r)) Discovery_loop = Running"
    by (simp add: command_defs input_defs start_def command_step_def loop_step_def
          eval_nat_numeral)
  from stop_channel_shared [of Discovery_cmd env_ok kube_globals] started
  obtain stop where one: "made_chans (effects ?r) = [stop]"
    and waited: "waited_chans (effects ?r) = [stop]"
    and exits: "\<forall>xs ys l.
        l \<noteq> Discovery_loop \<and> loops (schedule xs (start ?r)) l \<noteq> Created
        \<and> stop \<in> set (closed (schedule xs (start ?r))) \<and> 3 \<le> turns_of l ys \<longrightarrow>
        loops (schedule (xs @ ys) (start ?r)) l = Stopped"
    by blast
  from one made have stop: "stop = Chan 0"
    by simp
  with fired have "stop \<in> set (closed (schedule ?xs (start ?r)))"
    by simp
  with exits controller turns
  have "loops (schedule (?xs @ ?ys) (start ?r)) ServiceController_loop = Stopped"
    by blast
  with made waited stop fired responder show ?thesis
    by simp
qed

section \<open>Order of start-up\<close>

lemma controllers_first_discoveryCmd:
  "controllers_first False False (effects (discoveryCmd e g))"
  by (simp add: command_defs split: if_splits sum.splits option.splits)

lemma controllers_first_sidecarCmd:
  "controllers_first False False (effects (sidecarCmd e g))"
  by (simp add: command_defs split: if_splits sum.splits option.splits)

lemma controllers_first_mono:
  "controllers_first svc cfg es \<Longrightarrow> (svc \<longrightarrow> svc') \<Longrightarrow> (cfg \<longrightarrow> cfg') \<Longrightarrow>
     controllers_first svc' cfg' es"
  by (induction svc cfg es arbitrary: svc' cfg' rule: controllers_first.induct) auto

lemma next_state_Created: "(next_state st fired = Created) = (st = Created)"
  by (cases st) auto

lemma started_loop_step: "started (loop_step l s) l' = started s l'"
  by (simp add: started_def loop_step_def next_state_Created)

lemma order_inv_loop_step: "order_inv s \<Longrightarrow> order_inv (loop_step l s)"
  by (simp add: order_inv_def started_loop_step) (simp add: loop_step_def)

lemma order_inv_Go:
  assumes "order_inv s" and "pending s = Go r # es"
  shows "order_inv (command_step s)"
  using assms
  by (cases r) (auto simp: order_inv_def started_def consumers_def command_step_def)

lemma order_inv_command_step: "order_inv s \<Longrightarrow> order_inv (command_step s)"
proof (cases "pending s")
  case Nil
  assume "order_inv s"
  with Nil show ?thesis by (simp add: command_step_def)
next
  case (Cons ev es)
  assume inv: "order_inv s"
  show ?thesis
  proof (cases "\<exists>r. ev = Go r")
    case True
    with inv Cons show ?thesis by (auto intro: order_inv_Go)
  next
    case False
    with inv Cons show ?thesis
      by (cases ev) (auto simp: order_inv_def started_def command_step_def)
  qed
qed

lemma order_inv_signal: "order_inv s \<Longrightarrow> order_inv (s\<lparr>signalled := True\<rparr>)"
  by (simp add: order_inv_def started_def)

lemma order_inv_step: "order_inv s \<Longrightarrow> order_inv (step x s)"
  by (cases x) (simp_all add: order_inv_loop_step order_inv_command_step order_inv_signal)

lemma order_inv_schedule: "order_inv s \<Longrightarrow> order_inv (schedule xs s)"
  by (induction xs arbitrary: s) (simp_all add: order_inv_step del: step.simps)

lemma order_inv_start:
  "controllers_first False False (effects r) \<Longrightarrow> order_inv (start r)"
  by (simp add: order_inv_def start_def started_def consumers_def)

text \<open>
  Claim C4 as stated fails. In the discovery command under the Kubernetes adapter, every
  constructor succeeding, the command's goroutine can execute its first fourteen effects
  before any other goroutine is scheduled: the discovery responder and the ingress status
  syncer have then been started while the service controller and the config controller are
  still \<open>Starting\<close>, neither having performed its first sync.
\<close>

theorem discoveryCmd_consumers_started_before_Running:
  "map (loops (schedule (replicate 14 Command_step) (start (discoveryCmd env_ok kube_globals))))
     [ServiceController_loop, ConfigController_loop, Discovery_loop, IngressSyncer_loop]
   = [Starting, Starting, Starting, Starting]"
  by (simp add: command_defs input_defs start_def command_step_def eval_nat_numeral)

text \<open>
  Claim C4, amended. In the discovery and sidecar commands, under every schedule and at every
  moment, a consumer loop (discovery responder, ingress status syncer, watcher) that has been
  started finds that the \<^verbatim>\<open>go\<close> statements of the service controller and of the
  config controller have been executed before: the consumers are started after the
  controllers' goroutines were launched, in program order, with no wait for their first sync.
\<close>

theorem consumers_started_after_controllers:
  assumes "c = Discovery_cmd \<or> c = Sidecar_cmd"
    and "l \<in> set consumers"
    and "loops (schedule xs (start (RunE c e g))) l \<noteq> Created"
  shows "loops (schedule xs (start (RunE c e g))) ServiceController_loop \<noteq> Created
    \<and> loops (schedule xs (start (RunE c e g))) ConfigController_loop \<noteq> Created"
proof -
  from assms(1) have "controllers_first False False (effects (RunE c e g))"
    by (auto simp: controllers_first_discoveryCmd controllers_first_sidecarCmd)
  then have "order_inv (schedule xs (start (RunE c e g)))"
    by (intro order_inv_schedule order_inv_start)
  with assms(2,3) show ?thesis
    by (auto simp: order_inv_def started_def)
qed

theorem consumers_started_after_controllers_witness:
  "loops (schedule (replicate 14 Command_step) (start (RunE Discovery_cmd env_ok kube_globals)))
     Discovery_loop = Starting
   \<and> loops (schedule (replicate 14 Command_step) (start (RunE Discovery_cmd env_ok kube_globals)))
     ServiceController_loop \<noteq> Created
   \<and> loops (schedule (replicate 14 Command_step) (start (RunE Discovery_cmd env_ok kube_globals)))
     ConfigController_loop \<noteq> Created"
proof -
  let ?s = "schedule (replicate 14 Command_step) (start (RunE Discovery_cmd env_ok kube_globals))"
  have consumer: "Discovery_loop \<in> set consumers"
    by (simp add: consumers_def)
  have responder: "loops ?s Discovery_loop = Starting"
    by (simp add: command_defs input_defs start_def command_step_def eval_nat_numeral)
  then have "loops ?s Discovery_loop \<noteq> Created"
    by simp
  from consumers_started_after_controllers [OF _ consumer this] responder show ?thesis
    by simp
qed

section \<open>Failure of the aggregate cache\<close>

text \<open>
  Claim C5. In the discovery command, when \<^verbatim>\<open>aggregate.MakeCache\<close> is called and
  returns an error, \<^verbatim>\<open>RunE\<close> returns that very error at once: the call is the last
  effect of the command, the discovery service is never constructed and no \<^verbatim>\<open>go\<close>
  statement is executed. The call happens only in the Kubernetes branch, after the TPR client
  was opened and the resources were registered.
\<close>

theorem discoveryCmd_MakeCache_failure:
  assumes "Call_aggregate_MakeCache stores \<in> set (effects (discoveryCmd e g))"
    and "aggregate_MakeCache e stores = Some err"
  shows "adapter (flags g) = KubernetesAdapter
    \<and> outcome (discoveryCmd e g) = Returned (Some err)
    \<and> last (effects (discoveryCmd e g)) = Call_aggregate_MakeCache stores
    \<and> (\<forall>sd cc ctx opts.
          Call_envoy_NewDiscoveryService sd cc ctx opts \<notin> set (effects (discoveryCmd e g)))
    \<and> (\<forall>r. Go r \<notin> set (effects (discoveryCmd e g)))"
  using assms
  by (auto simp: command_defs split: if_splits sum.splits option.splits)

theorem discoveryCmd_MakeCache_failure_witness:
  "outcome (discoveryCmd env_MakeCache_fails kube_globals)
     = Returned (Some (Failure ''a source failed to start''))
   \<and> (\<forall>r. Go r \<notin> set (effects (discoveryCmd env_MakeCache_fails kube_globals)))"
proof -
  let ?stores = "[TprController (TprClient 0) 1000000000,
                  IngressController (Some (KubeInterface 0))
                    (Some \<lparr>IngressControllerMode = ProxyMeshConfig_DEFAULT, otherFields = 0\<rparr>)
                    \<lparr>Namespace = ''default'', ResyncPeriod = 1000000000,
                     DomainSuffix = ''cluster.local''\<rparr>]"
  have called: "Call_aggregate_MakeCache ?stores
      \<in> set (effects (discoveryCmd env_MakeCache_fails kube_globals))"
    by (simp add: command_defs input_defs env_MakeCache_fails_def)
  have fails: "aggregate_MakeCache env_MakeCache_fails ?stores
      = Some (Failure ''a source failed to start'')"
    by (simp add: env_MakeCache_fails_def)
  from discoveryCmd_MakeCache_failure [OF called fails] show ?thesis
    by simp
qed

section \<open>Conflicts between sources\<close>

lemma index_add_object:
  "index (add_object obj m) = (if claimed m (key obj) then index m else index m @ [obj])"
  by (simp add: add_object_def)

lemma conflicts_add_object:
  "conflicts (add_object obj m)
     = (if claimed m (key obj) then conflicts m @ [obj] else conflicts m)"
  by (simp add: add_object_def)

lemma claimed_add_object: "claimed (add_object obj m) k = (claimed m k \<or> key obj = k)"
  by (auto simp: claimed_def index_add_object)

lemma claimed_fold:
  "claimed (fold add_object objs m) k = (claimed m k \<or> k \<in> key ` set objs)"
  by (induction objs arbitrary: m) (auto simp: claimed_add_object)

lemma find_append:
  "find P (xs @ ys) = (case find P xs of None \<Rightarrow> find P ys | Some x \<Rightarrow> Some x)"
  by (induction xs) simp_all

lemma Get_add_object:
  "Get (add_object obj m) k
     = (case Get m k of Some x \<Rightarrow> Some x
        | None \<Rightarrow> if key obj = k then Some obj else None)"
proof (cases "claimed m (key obj)")
  case True
  then have "key obj = k \<Longrightarrow> Get m k \<noteq> None"
    by (auto simp: Get_def claimed_def find_None_iff)
  with True show ?thesis
    by (auto simp: Get_def index_add_object split: option.splits)
next
  case False
  then show ?thesis
    by (simp add: Get_def index_add_object find_append split: option.splits)
qed

lemma Get_fold:
  "Get (fold add_object objs m) k
     = (case Get m k of Some x \<Rightarrow> Some x | None \<Rightarrow> find (\<lambda>obj. key obj = k) objs)"
  by (induction objs arbitrary: m) (auto simp: Get_add_object split: option.splits)

lemma merge_sources_concat:
  "merge_sources srcs = fold add_object (concat srcs) \<lparr>index = [], conflicts = []\<rparr>"
proof -
  have "fold add_source srcs m = fold add_object (concat srcs) m" for m
    by (induction srcs arbitrary: m) (simp_all add: add_source_def)
  then show ?thesis
    by (simp add: merge_sources_def)
qed

lemma Get_merge_sources: "Get (merge_sources srcs) k = find (\<lambda>obj. key obj = k) (concat srcs)"
  by (simp add: merge_sources_concat Get_fold) (simp add: Get_def)

lemma distinct_index_add_object:
  "distinct (map key (index m)) \<Longrightarrow> distinct (map key (index (add_object obj m)))"
  by (auto simp: index_add_object claimed_def)

lemma distinct_index_fold:
  "distinct (map key (index m)) \<Longrightarrow> distinct (map key (index (fold add_object objs m)))"
  by (induction objs arbitrary: m) (simp_all add: distinct_index_add_object)

lemma distinct_index_merge_sources: "distinct (map key (index (merge_sources srcs)))"
  by (simp add: merge_sources_concat distinct_index_fold)

lemma filter_key_distinct:
  "distinct (map key objs) \<Longrightarrow>
     filter (\<lambda>obj. key obj = k) objs
       = (case find (\<lambda>obj. key obj = k) objs of None \<Rightarrow> [] | Some x \<Rightarrow> [x])"
proof (induction objs)
  case Nil
  then show ?case by simp
next
  case (Cons a objs)
  then have "key a = k \<Longrightarrow> find (\<lambda>obj. key obj = k) objs = None"
    by (fastforce simp: find_None_iff image_iff)
  with Cons show ?case by auto
qed

lemma conflicts_fold_mono:
  "set (conflicts m) \<subseteq> set (conflicts (fold add_object objs m))"
proof (induction objs arbitrary: m)
  case Nil
  then show ?case by simp
next
  case (Cons a objs)
  have "set (conflicts m) \<subseteq> set (conflicts (add_object a m))"
    by (auto simp: conflicts_add_object)
  also have "\<dots> \<subseteq> set (conflicts (fold add_object objs (add_object a m)))"
    by (rule Cons.IH)
  finally show ?case by simp
qed

lemma loser_in_conflicts:
  "claimed m (key obj) \<Longrightarrow> obj \<in> set objs \<Longrightarrow>
     obj \<in> set (conflicts (fold add_object objs m))"
proof (induction objs arbitrary: m)
  case Nil
  then show ?case by simp
next
  case (Cons a objs)
  show ?case
  proof (cases "a = obj")
    case True
    with Cons.prems have "obj \<in> set (conflicts (add_object a m))"
      by (simp add: conflicts_add_object)
    with conflicts_fold_mono [of "add_object a m" objs] show ?thesis
      by auto
  next
    case False
    with Cons.prems have "obj \<in> set objs" and "claimed (add_object a m) (key obj)"
      by (simp_all add: claimed_add_object)
    with Cons.IH show ?thesis by simp
  qed
qed

lemma find_own_key:
  "a \<in> set objs \<Longrightarrow> distinct (map key objs) \<Longrightarrow>
     find (\<lambda>obj. key obj = key a) objs = Some a"
  by (induction objs) (auto simp: image_iff)

lemma find_first_claimant:
  assumes "i < length srcs" and "a \<in> set (srcs ! i)" and "distinct (map key (srcs ! i))"
    and "\<forall>h < i. key a \<notin> key ` set (srcs ! h)"
  shows "find (\<lambda>obj. key obj = key a) (concat srcs) = Some a"
proof -
  have "key a \<notin> key ` set src" if "src \<in> set (take i srcs)" for src
  proof -
    from that obtain h where "h < i" and "src = srcs ! h"
      by (auto simp: in_set_conv_nth)
    with assms(4) show ?thesis by simp
  qed
  then have earlier: "find (\<lambda>obj. key obj = key a) (concat (take i srcs)) = None"
    by (fastforce simp: find_None_iff image_iff)
  from assms(2,3) have here: "find (\<lambda>obj. key obj = key a) (srcs ! i) = Some a"
    by (rule find_own_key)
  from assms(1) have "concat srcs = concat (take i srcs) @ srcs ! i @ concat (drop (Suc i) srcs)"
    by (metis append_Cons append_Nil concat.simps(2) concat_append id_take_nth_drop)
  with earlier here show ?thesis
    by (simp add: find_append)
qed

text \<open>
  Claim C6. The discovery command hands its sources to \<^verbatim>\<open>aggregate.MakeCache\<close> with
  the TPR controller first and the ingress controller second. In the merged view of any list
  of sources, a key claimed by the source at position \<open>i\<close> and by no earlier one, and claimed
  again by a later source at position \<open>j\<close>: \<^verbatim>\<open>Get\<close> returns the object of source
  \<open>i\<close>, that object is the only one of the key in \<^verbatim>\<open>List\<close>, and the object of
  source \<open>j\<close> is among the recorded conflicts.
\<close>

theorem first_registered_source_wins:
  "(\<forall>stores. Call_aggregate_MakeCache stores \<in> set (effects (discoveryCmd e g)) \<longrightarrow>
      (\<exists>tc. stores = [TprController tc (ResyncPeriod (controllerOptions (flags g))),
                      IngressController (client g) (mesh g) (controllerOptions (flags g))]))
   \<and> (i < j \<and> j < length srcs \<and> a \<in> set (srcs ! i) \<and> b \<in> set (srcs ! j) \<and> key b = key a
       \<and> distinct (map key (srcs ! i)) \<and> (\<forall>h < i. key a \<notin> key ` set (srcs ! h)) \<longrightarrow>
      Get (merge_sources srcs) (key a) = Some a
      \<and> filter (\<lambda>obj. key obj = key a) (List (merge_sources srcs) (fst (key a))) = [a]
      \<and> b \<in> set (conflicts (merge_sources srcs)))"
proof (intro conjI impI allI)
  fix stores
  assume "Call_aggregate_MakeCache stores \<in> set (effects (discoveryCmd e g))"
  then show "\<exists>tc. stores = [TprController tc (ResyncPeriod (controllerOptions (flags g))),
      IngressController (client g) (mesh g) (controllerOptions (flags g))]"
    by (auto simp: command_defs split: if_splits sum.splits option.splits)
next
  assume h: "i < j \<and> j < length srcs \<and> a \<in> set (srcs ! i) \<and> b \<in> set (srcs ! j) \<and> key b = key a
    \<and> distinct (map key (srcs ! i)) \<and> (\<forall>h < i. key a \<notin> key ` set (srcs ! h))"
  then have "i < length srcs" and "a \<in> set (srcs ! i)" and "distinct (map key (srcs ! i))"
    and "\<forall>h < i. key a \<notin> key ` set (srcs ! h)"
    by simp_all
  then have "find (\<lambda>obj. key obj = key a) (concat srcs) = Some a"
    by (rule find_first_claimant)
  then show got: "Get (merge_sources srcs) (key a) = Some a"
    by (simp add: Get_merge_sources)
  have "filter (\<lambda>obj. key obj = key a) (List (merge_sources srcs) (fst (key a)))
      = filter (\<lambda>obj. key obj = key a) (index (merge_sources srcs))"
    by (auto simp: List_def intro: filter_cong)
  also have "\<dots> = [a]"
    using got filter_key_distinct [OF distinct_index_merge_sources, of "key a" srcs]
    by (simp add: Get_def)
  finally show "filter (\<lambda>obj. key obj = key a) (List (merge_sources srcs) (fst (key a))) = [a]" .
  let ?m = "fold add_object (concat (take j srcs)) \<lparr>index = [], conflicts = []\<rparr>"
  from h have "srcs ! i \<in> set (take j srcs)"
    by (auto simp: in_set_conv_nth intro!: exI [of _ i])
  with h have "claimed ?m (key b)"
    by (auto simp: claimed_fold)
  moreover from h have "drop j srcs = srcs ! j # drop (Suc j) srcs"
    by (simp add: Cons_nth_drop_Suc)
  with h have "b \<in> set (concat (drop j srcs))"
    by simp
  ultimately have "b \<in> set (conflicts (fold add_object (concat (drop j srcs)) ?m))"
    by (rule loser_in_conflicts)
  moreover have "concat srcs = concat (take j srcs) @ concat (drop j srcs)"
    by (metis append_take_drop_id concat_append)
  then have "merge_sources srcs = fold add_object (concat (drop j srcs)) ?m"
    by (simp add: merge_sources_concat)
  ultimately show "b \<in> set (conflicts (merge_sources srcs))"
    by simp
qed

theorem first_registered_source_wins_witness:
  "Get (merge_sources [[route_A], [route_B]]) (''route'', ''default'', ''r1'') = Some route_A
   \<and> List (merge_sources [[route_A], [route_B]]) ''route'' = [route_A]
   \<and> route_B \<in> set (conflicts (merge_sources [[route_A], [route_B]]))"
proof -
  have "(0::nat) < 1 \<and> 1 < length [[route_A], [route_B]]
      \<and> route_A \<in> set ([[route_A], [route_B]] ! 0) \<and> route_B \<in> set ([[route_A], [route_B]] ! 1)
      \<and> key route_B = key route_A \<and> distinct (map key ([[route_A], [route_B]] ! 0))
      \<and> (\<forall>h < 0. key route_A \<notin> key ` set ([[route_A], [route_B]] ! h))"
    by (simp add: route_A_def route_B_def)
  with first_registered_source_wins [of _ _ 0 1 "[[route_A], [route_B]]" route_A route_B]
  have "Get (merge_sources [[route_A], [route_B]]) (key route_A) = Some route_A
      \<and> route_B \<in> set (conflicts (merge_sources [[route_A], [route_B]]))"
    by blast
  moreover have "List (merge_sources [[route_A], [route_B]]) ''route'' = [route_A]"
    by (simp add: merge_sources_def add_source_def add_object_def claimed_def List_def
          route_A_def route_B_def)
  ultimately show ?thesis
    by (simp add: route_A_def)
qed

section \<open>Shutdown\<close>

lemma command_view_loop_step: "command_view (loop_step l s) = command_view s"
  by (simp add: command_view_def loop_step_def)

lemma command_view_command_step:
  "command_view (command_step s) = view_step (command_view s)"
  by (simp add: command_view_def command_step_def view_step_def
        split: list.split event.split)

lemma command_view_step:
  "command_view s = command_view s' \<Longrightarrow> \<not> is_Loop_step x \<Longrightarrow>
     command_view (step x s) = command_view (step x s')"
proof (cases x)
  case Command_step
  assume "command_view s = command_view s'"
  with Command_step show ?thesis
    by (simp add: command_view_command_step)
next
  case (Loop_step l)
  assume "\<not> is_Loop_step x"
  with Loop_step show ?thesis by simp
next
  case Signal_arrives
  assume "command_view s = command_view s'"
  with Signal_arrives show ?thesis
    by (simp add: command_view_def)
qed

lemma command_view_schedule:
  "command_view s = command_view s' \<Longrightarrow>
     command_view (schedule xs s)
       = command_view (schedule (filter (\<lambda>x. \<not> is_Loop_step x) xs) s')"
proof (induction xs arbitrary: s s')
  case Nil
  then show ?case by simp
next
  case (Cons x xs)
  show ?case
  proof (cases "is_Loop_step x")
    case True
    then obtain l where "x = Loop_step l"
      by (cases x) auto
    with Cons show ?thesis
      by (simp add: command_view_loop_step)
  next
    case False
    with Cons.prems have "command_view (step x s) = command_view (step x s')"
      by (rule_tac command_view_step)
    from Cons.IH [OF this] False show ?thesis
      by simp
  qed
qed

lemma WaitSignal_is_last:
  "WaitSignal stop \<in> set (effects (RunE c e g)) \<Longrightarrow>
     outcome (RunE c e g) = Returned None \<and> last (effects (RunE c e g)) = WaitSignal stop"
proof (cases c)
  case Discovery_cmd
  assume "WaitSignal stop \<in> set (effects (RunE c e g))"
  with Discovery_cmd show ?thesis
    by (auto simp: command_defs split: if_splits sum.splits option.splits)
next
  case Sidecar_cmd
  assume "WaitSignal stop \<in> set (effects (RunE c e g))"
  with Sidecar_cmd show ?thesis
    by (auto simp: command_defs split: if_splits sum.splits option.splits)
next
  case Ingress_cmd
  assume "WaitSignal stop \<in> set (effects (RunE c e g))"
  with Ingress_cmd show ?thesis
    by (auto simp: command_defs split: option.splits)
next
  case Egress_cmd
  assume "WaitSignal stop \<in> set (effects (RunE c e g))"
  with Egress_cmd show ?thesis
    by (auto simp: command_defs split: option.splits)
next
  case Version_cmd
  assume "WaitSignal stop \<in> set (effects (RunE c e g))"
  with Version_cmd show ?thesis
    by (simp add: command_defs)
qed

text \<open>
  Claim C7 as stated fails. In the discovery command under the Kubernetes adapter, every
  constructor succeeding: the command executes its first fourteen effects, the four loops
  perform their first sync, the signal arrives, and the next step of the command returns from
  \<^verbatim>\<open>cmd.WaitSignal\<close> (having closed the stop channel) and from \<^verbatim>\<open>RunE\<close>.
  The command has returned, and every loop is still \<open>Running\<close>.
\<close>

theorem discoveryCmd_returns_before_loops_stop:
  "pending (schedule
      (replicate 14 Command_step
       @ [Loop_step ServiceController_loop, Loop_step ConfigController_loop,
          Loop_step Discovery_loop, Loop_step IngressSyncer_loop, Signal_arrives, Command_step])
      (start (discoveryCmd env_ok kube_globals))) = []
   \<and> map (loops (schedule
      (replicate 14 Command_step
       @ [Loop_step ServiceController_loop, Loop_step ConfigController_loop,
          Loop_step Discovery_loop, Loop_step IngressSyncer_loop, Signal_arrives, Command_step])
      (start (discoveryCmd env_ok kube_globals))))
      [ServiceController_loop, ConfigController_loop, Discovery_loop, IngressSyncer_loop]
     = [Running, Running, Running, Running]"
  by (simp add: command_defs input_defs start_def command_step_def loop_step_def
        eval_nat_numeral)

text \<open>
  Claim C7, amended. The command does not wait for its loops. In every command,
  \<^verbatim>\<open>cmd.WaitSignal(stop)\<close>, when reached, is the last effect and \<^verbatim>\<open>RunE\<close>
  returns nil after it; under every schedule, what is left for the command to do is the same
  as if no loop had ever taken a step; and once the signal has arrived with only
  \<^verbatim>\<open>cmd.WaitSignal\<close> pending, the next step of the command closes the stop channel and
  returns, leaving the state of every loop as it was. There is no join and no grace timeout.
\<close>

theorem command_returns_without_join:
  "(WaitSignal stop \<in> set (effects (RunE c e g)) \<longrightarrow>
      outcome (RunE c e g) = Returned None \<and> last (effects (RunE c e g)) = WaitSignal stop)
   \<and> pending (schedule xs (start (RunE c e g)))
       = pending (schedule (filter (\<lambda>x. \<not> is_Loop_step x) xs) (start (RunE c e g)))
   \<and> (signalled s \<and> pending s = [WaitSignal stop] \<longrightarrow>
        pending (command_step s) = [] \<and> closed (command_step s) = stop # closed s
        \<and> loops (command_step s) = loops s)"
proof (intro conjI impI)
  assume "WaitSignal stop \<in> set (effects (RunE c e g))"
  then show "outcome (RunE c e g) = Returned None"
    and "last (effects (RunE c e g)) = WaitSignal stop"
    by (simp_all add: WaitSignal_is_last)
next
  have "command_view (schedule xs (start (RunE c e g)))
      = command_view (schedule (filter (\<lambda>x. \<not> is_Loop_step x) xs) (start (RunE c e g)))"
    by (rule command_view_schedule) simp
  then show "pending (schedule xs (start (RunE c e g)))
      = pending (schedule (filter (\<lambda>x. \<not> is_Loop_step x) xs) (start (RunE c e g)))"
    by (simp add: command_view_def)
next
  assume "signalled s \<and> pending s = [WaitSignal stop]"
  then show "pending (command_step s) = []"
    and "closed (command_step s) = stop # closed s"
    and "loops (command_step s) = loops s"
    by (simp_all add: command_step_def)
qed

theorem command_returns_without_join_witness:
  "outcome (RunE Sidecar_cmd env_ok vms_globals) = Returned None
   \<and> last (effects (RunE Sidecar_cmd env_ok vms_globals)) = WaitSignal (Chan 0)
   \<and> pending (schedule
        [Command_step, Loop_step Watcher_loop, Signal_arrives, Loop_step ConfigController_loop]
        (start (RunE Sidecar_cmd env_ok vms_globals)))
     = pending (schedule [Command_step, Signal_arrives] (start (RunE Sidecar_cmd env_ok vms_globals)))
   \<and> pending (command_step
        \<lparr>pending = [WaitSignal (Chan 0)], loops = (\<lambda>l. Running), stop_of = (\<lambda>l. Some (Chan 0)),
         signalled = True, closed = []\<rparr>) = []"
proof -
  let ?s = "\<lparr>pending = [WaitSignal (Chan 0)], loops = (\<lambda>l. Running),
             stop_of = (\<lambda>l. Some (Chan 0)), signalled = True, closed = []\<rparr>"
  have reached: "WaitSignal (Chan 0) \<in> set (effects (RunE Sidecar_cmd env_ok vms_globals))"
    by (simp add: command_defs input_defs)
  have blocked: "signalled ?s \<and> pending ?s = [WaitSignal (Chan 0)]"
    by simp
  from command_returns_without_join
        [of "Chan 0" Sidecar_cmd env_ok vms_globals
            "[Command_step, Loop_step Watcher_loop, Signal_arrives,
              Loop_step ConfigController_loop]" ?s]
    reached blocked
  show ?thesis
    by simp
qed

section \<open>Registration of the resources\<close>

text \<open>
  Claim C8. In the discovery command under the Kubernetes adapter, whenever the config
  controller's \<^verbatim>\<open>Run\<close> is started, \<^verbatim>\<open>tprClient.RegisterResources\<close> was called
  earlier in the same run and returned nil, and the controller started is the aggregate cache
  over the TPR controller of that client. If the registration returns an error,
  \<^verbatim>\<open>RunE\<close> returns it (prefixed) and no \<^verbatim>\<open>go\<close> statement is executed.
\<close>

theorem discoveryCmd_registration_before_Run:
  assumes "adapter (flags g) = KubernetesAdapter"
  shows "(\<forall>pre cc stop post.
            effects (discoveryCmd e g) = pre @ Go (ConfigController_Run cc stop) # post \<longrightarrow>
            (\<exists>tc. Call_RegisterResources tc \<in> set pre \<and> tpr_RegisterResources e tc = None
               \<and> cc = AggregateCache
                    [TprController tc (ResyncPeriod (controllerOptions (flags g))),
                     IngressController (client g) (mesh g) (controllerOptions (flags g))]))
       \<and> (\<forall>tc err.
            Call_RegisterResources tc \<in> set (effects (discoveryCmd e g))
            \<and> tpr_RegisterResources e tc = Some err \<longrightarrow>
            outcome (discoveryCmd e g)
              = Returned (Some (Prefix err ''failed to register Third-Party Resources.''))
            \<and> (\<forall>r. Go r \<notin> set (effects (discoveryCmd e g))))"
  using assms
  by (auto simp: command_defs Cons_eq_append_conv split: if_splits sum.splits option.splits)

text \<open>The theorem at two inputs: a run in which everything succeeds (the config controller is started by
  the twelfth effect, the registration is the second), and a run in which the registration fails.\<close>

theorem discoveryCmd_registration_before_Run_witness:
  "Call_RegisterResources (TprClient 0) \<in> set (take 11 (effects (discoveryCmd env_ok kube_globals)))
   \<and> tpr_RegisterResources env_ok (TprClient 0) = None
   \<and> outcome (discoveryCmd env_Register_fails kube_globals)
       = Returned (Some (Prefix (Failure ''registration refused'')
                          ''failed to register Third-Party Resources.''))
   \<and> (\<forall>r. Go r \<notin> set (effects (discoveryCmd env_Register_fails kube_globals)))"
proof -
  have kube: "adapter (flags kube_globals) = KubernetesAdapter"
    by (simp add: input_defs)
  let ?tr = "effects (discoveryCmd env_ok kube_globals)"
  let ?cc = "AggregateCache
      [TprController (TprClient 0) 1000000000,
       IngressController (Some (KubeInterface 0))
         (Some \<lparr>IngressControllerMode = ProxyMeshConfig_DEFAULT, otherFields = 0\<rparr>)
         \<lparr>Namespace = ''default'', ResyncPeriod = 1000000000,
          DomainSuffix = ''cluster.local''\<rparr>]"
  have split: "?tr = take 11 ?tr @ Go (ConfigController_Run ?cc (Chan 0)) # drop 12 ?tr"
    by (simp add: command_defs input_defs)
  have called: "Call_RegisterResources (TprClient 0)
      \<in> set (effects (discoveryCmd env_Register_fails kube_globals))"
    by (simp add: command_defs input_defs env_Register_fails_def)
  have fails: "tpr_RegisterResources env_Register_fails (TprClient 0)
      = Some (Failure ''registration refused'')"
    by (simp add: env_Register_fails_def input_defs)
  from discoveryCmd_registration_before_Run [OF kube, of env_ok] split
  obtain tc where "Call_RegisterResources tc \<in> set (take 11 ?tr)"
    and "tpr_RegisterResources env_ok tc = None"
    and "?cc = AggregateCache
          [TprController tc (ResyncPeriod (controllerOptions (flags kube_globals))),
           IngressController (client kube_globals) (mesh kube_globals)
             (controllerOptions (flags kube_globals))]"
    by blast
  then have ok: "Call_RegisterResources (TprClient 0) \<in> set (take 11 ?tr)
      \<and> tpr_RegisterResources env_ok (TprClient 0) = None"
    by simp
  from discoveryCmd_registration_before_Run [OF kube, of env_Register_fails] called fails
  have "outcome (discoveryCmd env_Register_fails kube_globals)
      = Returned (Some (Prefix (Failure ''registration refused'')
                         ''failed to register Third-Party Resources.''))
    \<and> (\<forall>r. Go r \<notin> set (effects (discoveryCmd env_Register_fails kube_globals)))"
    by blast
  with ok show ?thesis by simp
qed

section \<open>The sidecar command under the Kubernetes adapter\<close>

text \<open>
  Claim C9 as stated fails in its last part. In the sidecar command under the Kubernetes
  adapter, every constructor succeeding, the run ends in the panic of
  \<^verbatim>\<open>go serviceController.Run(stop)\<close> on the nil interface: no \<^verbatim>\<open>go\<close>
  statement completes, and \<^verbatim>\<open>configController.Run\<close> is not reached.
\<close>

theorem sidecarCmd_kube_no_Run_started:
  "outcome (sidecarCmd env_ok kube_globals) = Panicked (NilInterfaceCall ''serviceController.Run'')
   \<and> launched (effects (sidecarCmd env_ok kube_globals)) = []
   \<and> last (effects (sidecarCmd env_ok kube_globals)) = MakeChan (Chan 0)"
  by (simp add: command_defs input_defs)

text \<open>
  Claim C9, amended. In the sidecar command under the Kubernetes adapter (with a mesh
  configuration, and the TPR client opened), the service controller and the config controller
  constructed in the branch do not reach the function-level variables: the proxy context holds
  a nil \<^verbatim>\<open>Discovery\<close>, nil \<^verbatim>\<open>Accounts\<close> and a store over a nil config
  controller, and \<^verbatim>\<open>envoy.NewWatcher\<close> is called with nil controllers and that
  context. If the watcher is built, the first \<^verbatim>\<open>go\<close> statement, which calls
  \<^verbatim>\<open>Run\<close> on the nil service controller, panics; no goroutine is started.
\<close>

theorem sidecarCmd_kube_nil_controllers:
  assumes "adapter (flags g) = KubernetesAdapter"
    and "mesh g = Some m"
    and "tpr_NewClient e (kubeconfig (flags g)) [RouteRuleDescriptor, DestinationPolicyDescriptor]
           (Namespace (controllerOptions (flags g))) = Inr tc"
  shows "let g' = g\<lparr>mesh := Some (m\<lparr>IngressControllerMode := ProxyMeshConfig_OFF\<rparr>)\<rparr> in
    final (sidecarCmd e g) = g'
    \<and> Call_kube_NewController (KubeController (client g') (mesh g') (controllerOptions (flags g')))
        \<in> set (effects (sidecarCmd e g))
    \<and> Call_tpr_NewController (TprController tc (ResyncPeriod (controllerOptions (flags g'))))
        \<in> set (effects (sidecarCmd e g))
    \<and> Call_envoy_NewWatcher None None (sidecar_kube_context g') \<in> set (effects (sidecarCmd e g))
    \<and> launched (effects (sidecarCmd e g)) = []
    \<and> outcome (sidecarCmd e g)
        = (case envoy_NewWatcher e None None (sidecar_kube_context g') of
             Some err \<Rightarrow> Returned (Some err)
           | None \<Rightarrow> Panicked (NilInterfaceCall ''serviceController.Run''))"
  using assms
  by (simp add: command_defs sidecar_kube_context_def split: option.splits)

theorem sidecarCmd_kube_nil_controllers_witness:
  "Call_envoy_NewWatcher None None
      \<lparr>Discovery = None, Accounts = None, Config = MakeIstioStore None,
       MeshConfig = Some \<lparr>IngressControllerMode = ProxyMeshConfig_OFF, otherFields = 0\<rparr>,
       IPAddress = '''', UID = ''kubernetes://.default'', Registraion = None,
       PassthroughPorts = []\<rparr>
     \<in> set (effects (sidecarCmd env_ok kube_globals))
   \<and> launched (effects (sidecarCmd env_ok kube_globals)) = []
   \<and> outcome (sidecarCmd env_ok kube_globals)
       = Panicked (NilInterfaceCall ''serviceController.Run'')"
proof -
  have kube: "adapter (flags kube_globals) = KubernetesAdapter"
    by (simp add: input_defs)
  have mesh: "mesh kube_globals
      = Some \<lparr>IngressControllerMode = ProxyMeshConfig_DEFAULT, otherFields = 0\<rparr>"
    by (simp add: input_defs)
  have opened: "tpr_NewClient env_ok (kubeconfig (flags kube_globals))
      [RouteRuleDescriptor, DestinationPolicyDescriptor]
      (Namespace (controllerOptions (flags kube_globals))) = Inr (TprClient 0)"
    by (simp add: input_defs)
  from sidecarCmd_kube_nil_controllers [OF kube mesh opened] show ?thesis
    by (simp add: sidecar_kube_context_def input_defs)
qed

section \<open>The adapter flag\<close>

lemma set_from_environment_adapter:
  "adapter (flags (set_from_environment e g)) = adapter (flags g)"
  by (simp add: set_from_environment_def Let_def)

lemma PersistentPreRunE_empty_adapter:
  "adapter (flags g) = '''' \<Longrightarrow>
      PersistentPreRunE e g
        = PersistentPreRunE e (g\<lparr>flags := (flags g)\<lparr>adapter := KubernetesAdapter\<rparr>\<rparr>)"
  by (simp add: PersistentPreRunE_def KubernetesAdapter_def)

lemma PersistentPreRunE_keeps_Kubernetes:
  "adapter (flags g) = KubernetesAdapter \<Longrightarrow>
     adapter (flags (snd (PersistentPreRunE e g))) = KubernetesAdapter"
  by (simp add: PersistentPreRunE_def KubernetesAdapter_def Let_def set_from_environment_adapter
        split: sum.splits)

lemma PersistentPreRunE_other_adapter:
  "adapter (flags g) \<notin> {'''', KubernetesAdapter, VMsAdapter} \<Longrightarrow>
     PersistentPreRunE e g = (None, g)"
  by (simp add: PersistentPreRunE_def)

lemma sidecarCmd_nil_mesh:
  "mesh g = None \<Longrightarrow>
     sidecarCmd e g = panics (NilPointerDereference ''mesh.IngressControllerMode'') [] g"
  by (simp add: sidecarCmd_def)

text \<open>
  Claim C10. \<^verbatim>\<open>PersistentPreRunE\<close> treats an empty adapter flag exactly as the
  Kubernetes adapter. For an adapter that is neither empty nor \<^verbatim>\<open>Kubernetes\<close> nor
  \<^verbatim>\<open>VMs\<close> it returns nil and changes no package-level variable, so
  \<^verbatim>\<open>client\<close>, \<^verbatim>\<open>vmsClient\<close> and \<^verbatim>\<open>mesh\<close> are what they were
  (nil in a fresh process); the selected command then runs, and the sidecar command, which
  writes through \<^verbatim>\<open>mesh\<close> first of all, panics on the nil pointer.
\<close>

theorem PersistentPreRunE_adapter:
  "(adapter (flags g) = '''' \<longrightarrow>
      PersistentPreRunE e g
        = PersistentPreRunE e (g\<lparr>flags := (flags g)\<lparr>adapter := KubernetesAdapter\<rparr>\<rparr>)
      \<and> adapter (flags (snd (PersistentPreRunE e g))) = KubernetesAdapter)
   \<and> (adapter (flags g) \<notin> {'''', KubernetesAdapter, VMsAdapter} \<longrightarrow>
      PersistentPreRunE e g = (None, g)
      \<and> Execute c e g = RunE c e g
      \<and> (mesh g = None \<longrightarrow>
           Execute Sidecar_cmd e g
             = panics (NilPointerDereference ''mesh.IngressControllerMode'') [] g
           \<and> status (main Sidecar_cmd e g) = 2))"
proof (intro conjI impI)
  assume empty: "adapter (flags g) = ''''"
  show "PersistentPreRunE e g
      = PersistentPreRunE e (g\<lparr>flags := (flags g)\<lparr>adapter := KubernetesAdapter\<rparr>\<rparr>)"
    by (rule PersistentPreRunE_empty_adapter [OF empty])
  then show "adapter (flags (snd (PersistentPreRunE e g))) = KubernetesAdapter"
    by (simp add: PersistentPreRunE_keeps_Kubernetes)
next
  assume other: "adapter (flags g) \<notin> {'''', KubernetesAdapter, VMsAdapter}"
  show pre: "PersistentPreRunE e g = (None, g)"
    by (rule PersistentPreRunE_other_adapter [OF other])
  show "Execute c e g = RunE c e g"
    by (simp add: Execute_def pre)
  assume unset: "mesh g = None"
  show run: "Execute Sidecar_cmd e g
      = panics (NilPointerDereference ''mesh.IngressControllerMode'') [] g"
    by (simp add: Execute_def pre sidecarCmd_nil_mesh [OF unset])
  show "status (main Sidecar_cmd e g) = 2"
    by (simp add: main_def run panics_def)
qed

theorem PersistentPreRunE_adapter_witness:
  "adapter (flags (snd (PersistentPreRunE env_ok (initial_globals default_flags))))
     = KubernetesAdapter
   \<and> PersistentPreRunE env_ok (initial_globals (default_flags\<lparr>adapter := ''Consul''\<rparr>))
     = (None, \<lparr>flags = default_flags\<lparr>adapter := ''Consul''\<rparr>, client = None, vmsClient = None,
               mesh = None\<rparr>)
   \<and> outcome (Execute Sidecar_cmd env_ok (initial_globals (default_flags\<lparr>adapter := ''Consul''\<rparr>)))
     = Panicked (NilPointerDereference ''mesh.IngressControllerMode'')
   \<and> status (main Sidecar_cmd env_ok (initial_globals (default_flags\<lparr>adapter := ''Consul''\<rparr>)))
     = 2"
proof -
  let ?g = "initial_globals (default_flags\<lparr>adapter := ''Consul''\<rparr>)"
  have empty: "adapter (flags (initial_globals default_flags)) = ''''"
    by (simp add: input_defs)
  have other: "adapter (flags ?g) \<notin> {'''', KubernetesAdapter, VMsAdapter}"
    by (simp add: input_defs)
  have unset: "mesh ?g = None"
    by (simp add: input_defs)
  from PersistentPreRunE_adapter [of "initial_globals default_flags" env_ok] empty
  have 1: "adapter (flags (snd (PersistentPreRunE env_ok (initial_globals default_flags))))
      = KubernetesAdapter"
    by blast
  from PersistentPreRunE_adapter [of ?g env_ok Sidecar_cmd] other unset
  have 2: "PersistentPreRunE env_ok ?g = (None, ?g)
      \<and> Execute Sidecar_cmd env_ok ?g
          = panics (NilPointerDereference ''mesh.IngressControllerMode'') [] ?g
      \<and> status (main Sidecar_cmd env_ok ?g) = 2"
    by blast
  from 1 2 show ?thesis
    by (simp add: panics_def initial_globals_def)
qed

end
